theory Spec2Isabelle
  imports Main "HOL-Library.Word"
begin

section \<open>The user endpoint of the Wavefront management API (user.go)\<close>

text \<open>
  A shallow embedding of \<^verbatim>\<open>user.go\<close>: the operations \<^verbatim>\<open>Get\<close>, \<^verbatim>\<open>Find\<close>, \<^verbatim>\<open>Create\<close>,
  \<^verbatim>\<open>Update\<close>, \<^verbatim>\<open>Delete\<close> of \<^verbatim>\<open>Users\<close>, the helper \<^verbatim>\<open>updateUser\<close>, and the pair
  \<^verbatim>\<open>UnmarshalJSON\<close>/\<^verbatim>\<open>MarshalJSON\<close> of \<^verbatim>\<open>UserGroupsWrapper\<close>.

  Conventions of the embedding.
  \<^item> A Go \<^verbatim>\<open>*string\<close> is a \<open>string option\<close>: \<open>None\<close> is the nil pointer. Dereferencing
    nil panics; a panic is the outcome \<open>NilDereference\<close>. An identifier that is a string,
    empty or not, is \<open>Some\<close> of that string.
  \<^item> A slice is a list; the nil slice and the empty slice are both \<open>[]\<close> (the code never
    tells them apart, except in \<^verbatim>\<open>json.Marshal(ids)\<close>, see \<open>marshal_string_ptrs\<close>).
  \<^item> A \<^verbatim>\<open>[]byte\<close> that holds JSON text is represented by what the scanner of
    \<^verbatim>\<open>encoding/json\<close> makes of it: \<open>Malformed\<close> (a syntax error) or the JSON value it
    denotes. Object members keep their order and their duplicates.
  \<^item> The pointers \<^verbatim>\<open>user\<close> and \<^verbatim>\<open>newUser\<close> handed to the operations are taken to be
    non-nil; the operations return the updated \<^verbatim>\<open>User\<close> beside the error.
  \<^item> The client (\<^verbatim>\<open>Wavefronter\<close>) and \<^verbatim>\<open>Search.Execute\<close> are parameters: functions on a
    collaborator state. Every call made to them is appended to a trace.
\<close>

subsection \<open>JSON values, errors, panics\<close>

datatype json =
    JNull
  | JBool bool
  | JNumber string
  | JString string
  | JArray "json list"
  | JObject "(string \<times> json) list"

datatype bytes = Malformed | Encoded json

text \<open>
  The error values that occur: \<^verbatim>\<open>fmt.Errorf(msg)\<close>, the two decoding errors of
  \<^verbatim>\<open>encoding/json\<close> (\<^verbatim>\<open>UnmarshalTypeError\<close> with its \<^verbatim>\<open>Value\<close> field), and the errors
  of the collaborators, which the code never inspects.
\<close>

datatype error =
    Errorf string
  | SyntaxError
  | UnmarshalTypeError string
  | MarshalerError
  | TransportError string

datatype 'a outcome = NilDereference | Returns 'a

subsection \<open>The decoder of encoding/json, as far as user.go uses it\<close>

text \<open>
  \<^verbatim>\<open>json.Unmarshal\<close> decodes into an existing value. A type mismatch is saved (the
  earliest one is kept) and decoding goes on; an error returned by an \<^verbatim>\<open>UnmarshalJSON\<close>
  method stops the decoding at once. \<open>Decoded s v\<close> is a decoding that goes on with
  saved error \<open>s\<close>, \<open>Aborted e v\<close> one that stopped; \<open>v\<close> is the target as it stands.
\<close>

datatype 'a decoded = Aborted error 'a | Decoded "error option" 'a

definition saveError :: "error \<Rightarrow> error option \<Rightarrow> error option" where
  "saveError e s = (case s of None \<Rightarrow> Some e | Some e0 \<Rightarrow> Some e0)"

definition finish :: "'a decoded \<Rightarrow> error option \<times> 'a" where
  "finish d = (case d of Aborted e v \<Rightarrow> (Some e, v) | Decoded s v \<Rightarrow> (s, v))"

definition map_decoded :: "('a \<Rightarrow> 'b) \<Rightarrow> 'a decoded \<Rightarrow> 'b decoded" where
  "map_decoded f d = (case d of Aborted e v \<Rightarrow> Aborted e (f v) | Decoded s v \<Rightarrow> Decoded s (f v))"

text \<open>The \<^verbatim>\<open>Value\<close> field of an \<^verbatim>\<open>UnmarshalTypeError\<close>.\<close>

definition kind :: "json \<Rightarrow> string" where
  "kind j = (case j of
       JNull \<Rightarrow> ''null''
     | JBool _ \<Rightarrow> ''bool''
     | JNumber _ \<Rightarrow> ''number''
     | JString _ \<Rightarrow> ''string''
     | JArray _ \<Rightarrow> ''array''
     | JObject _ \<Rightarrow> ''object'')"

text \<open>Into a \<^verbatim>\<open>string\<close>: null has no effect.\<close>

definition decode_string :: "json \<Rightarrow> string \<Rightarrow> error option \<Rightarrow> string decoded" where
  "decode_string j old s = (case j of
       JNull \<Rightarrow> Decoded s old
     | JString x \<Rightarrow> Decoded s x
     | _ \<Rightarrow> Decoded (saveError (UnmarshalTypeError (kind j)) s) old)"

text \<open>
  Into a \<^verbatim>\<open>*string\<close>: null sets the pointer to nil; for any other value a nil pointer
  is allocated first, then the value is stored through it.
\<close>

definition decode_string_ptr :: "json \<Rightarrow> string option \<Rightarrow> error option \<Rightarrow> string option decoded" where
  "decode_string_ptr j old s = (case j of
       JNull \<Rightarrow> Decoded s None
     | _ \<Rightarrow> map_decoded Some (decode_string j (case old of None \<Rightarrow> [] | Some x \<Rightarrow> x) s))"

text \<open>
  Into a \<^verbatim>\<open>uint\<close> (64 bits): \<^verbatim>\<open>strconv.ParseUint(s, 10, 64)\<close> accepts a number literal
  that consists of digits only and is below \<open>2 ^ 64\<close>.
\<close>

definition digit_value :: "char \<Rightarrow> nat option" where
  "digit_value c = map_of (zip ''0123456789'' [0, 1, 2, 3, 4, 5, 6, 7, 8, 9]) c"

fun ParseUint :: "string \<Rightarrow> nat \<Rightarrow> nat option" where
  "ParseUint [] n = Some n"
| "ParseUint (c # cs) n = (case digit_value c of
       None \<Rightarrow> None
     | Some d \<Rightarrow> if 10 * n + d < 2 ^ 64 then ParseUint cs (10 * n + d) else None)"

definition decode_uint :: "json \<Rightarrow> 64 word \<Rightarrow> error option \<Rightarrow> 64 word decoded" where
  "decode_uint j old s = (case j of
       JNull \<Rightarrow> Decoded s old
     | JNumber lit \<Rightarrow> (case (if lit = [] then None else ParseUint lit 0) of
           Some n \<Rightarrow> Decoded s (of_nat n)
         | None \<Rightarrow> Decoded (saveError (UnmarshalTypeError (''number '' @ lit)) s) old)
     | _ \<Rightarrow> Decoded (saveError (UnmarshalTypeError (kind j)) s) old)"

text \<open>
  Into a slice: element \<open>i\<close> of the array is decoded into element \<open>i\<close> of the slice
  where the slice has one, into a zero value \<open>z\<close> otherwise; the slice is cut to the
  length of the array. null gives the nil slice.
\<close>

fun decode_elems ::
  "(json \<Rightarrow> 'a \<Rightarrow> error option \<Rightarrow> 'a decoded) \<Rightarrow> 'a \<Rightarrow> json list \<Rightarrow> 'a list \<Rightarrow> error option
    \<Rightarrow> 'a list decoded" where
  "decode_elems dec z [] old s = Decoded s []"
| "decode_elems dec z (j # js) old s =
     (case dec j (case old of [] \<Rightarrow> z | x # _ \<Rightarrow> x) s of
        Aborted e v \<Rightarrow> Aborted e (v # tl old)
      | Decoded s' v \<Rightarrow> map_decoded (\<lambda>vs. v # vs) (decode_elems dec z js (tl old) s'))"

definition decode_slice ::
  "(json \<Rightarrow> 'a \<Rightarrow> error option \<Rightarrow> 'a decoded) \<Rightarrow> 'a \<Rightarrow> json \<Rightarrow> 'a list \<Rightarrow> error option
    \<Rightarrow> 'a list decoded" where
  "decode_slice dec z j old s = (case j of
       JNull \<Rightarrow> Decoded s []
     | JArray js \<Rightarrow> decode_elems dec z js old s
     | _ \<Rightarrow> Decoded (saveError (UnmarshalTypeError (kind j)) s) old)"

text \<open>
  Into a struct: the members of the object are taken in order, each decoded into the
  field its key names; null has no effect. A key names a field when the two are equal
  under Unicode simple case folding (an exact match is preferred, which makes no
  difference as long as the folded field names of a struct are distinct). The field
  names here are ASCII, so folding is: upper-case the ASCII letters, and map the two
  other characters of the fold sets of an ASCII letter, U+017F (bytes C5 BF) to S and
  U+212A (bytes E2 84 AA) to K.
\<close>

definition upper :: "char \<Rightarrow> char" where
  "upper c = (case map_of (zip ''abcdefghijklmnopqrstuvwxyz'' ''ABCDEFGHIJKLMNOPQRSTUVWXYZ'') c of
       None \<Rightarrow> c | Some C \<Rightarrow> C)"

fun foldName :: "string \<Rightarrow> string" where
  "foldName [] = []"
| "foldName (c # cs) =
     (if c = CHR 0xC5 \<and> take 1 cs = [CHR 0xBF] then CHR ''S'' # foldName (drop 1 cs)
      else if c = CHR 0xE2 \<and> take 2 cs = [CHR 0x84, CHR 0xAA] then CHR ''K'' # foldName (drop 2 cs)
      else upper c # foldName cs)"

definition names :: "string \<Rightarrow> string \<Rightarrow> bool" where
  "names key field = (foldName key = foldName field)"

fun decode_fields ::
  "(string \<Rightarrow> json \<Rightarrow> 'a \<Rightarrow> error option \<Rightarrow> 'a decoded) \<Rightarrow> (string \<times> json) list \<Rightarrow> 'a
    \<Rightarrow> error option \<Rightarrow> 'a decoded" where
  "decode_fields field [] v s = Decoded s v"
| "decode_fields field ((k, j) # kvs) v s =
     (case field k j v s of
        Aborted e v' \<Rightarrow> Aborted e v'
      | Decoded s' v' \<Rightarrow> decode_fields field kvs v' s')"

definition decode_struct ::
  "(string \<Rightarrow> json \<Rightarrow> 'a \<Rightarrow> error option \<Rightarrow> 'a decoded) \<Rightarrow> json \<Rightarrow> 'a \<Rightarrow> error option
    \<Rightarrow> 'a decoded" where
  "decode_struct field j v s = (case j of
       JNull \<Rightarrow> Decoded s v
     | JObject kvs \<Rightarrow> decode_fields field kvs v s
     | _ \<Rightarrow> Decoded (saveError (UnmarshalTypeError (kind j)) s) v)"

subsection \<open>The encoder of encoding/json: strings\<close>

text \<open>
  \<^verbatim>\<open>json.Marshal\<close> writes a Go string as a JSON string. Bytes that are not valid UTF-8
  are written as the escape for U+FFFD, one for each byte at which \<^verbatim>\<open>utf8.DecodeRuneInString\<close>
  returns \<^verbatim>\<open>RuneError\<close> with size 1; every other character is written so that it reads
  back as itself (escaped or not). So the string the text denotes is the Go string with
  each such byte replaced by U+FFFD (bytes EF BF BD).

  \<open>DecodeRune_size\<close> is the size \<^verbatim>\<open>utf8.DecodeRune\<close> finds at the head of the bytes, and 0
  where it reports an invalid byte: the first byte decides the length and the range of
  the second byte, the further bytes are continuation bytes (80 to BF).
\<close>

definition between :: "nat \<Rightarrow> nat \<Rightarrow> nat list \<Rightarrow> nat \<Rightarrow> bool" where
  "between lo hi bs i = (i < length bs \<and> lo \<le> bs ! i \<and> bs ! i \<le> hi)"

definition DecodeRune_size :: "nat list \<Rightarrow> nat" where
  "DecodeRune_size s = (case s of [] \<Rightarrow> 0 | b0 # bs \<Rightarrow>
     (if b0 < 0x80 then 1
      else if b0 < 0xC2 then 0
      else if b0 < 0xE0 then (if between 0x80 0xBF bs 0 then 2 else 0)
      else if b0 < 0xF0 then
        (if between (if b0 = 0xE0 then 0xA0 else 0x80) (if b0 = 0xED then 0x9F else 0xBF) bs 0 \<and>
            between 0x80 0xBF bs 1 then 3 else 0)
      else if b0 < 0xF5 then
        (if between (if b0 = 0xF0 then 0x90 else 0x80) (if b0 = 0xF4 then 0x8F else 0xBF) bs 0 \<and>
            between 0x80 0xBF bs 1 \<and> between 0x80 0xBF bs 2 then 4 else 0)
      else 0))"

function coerce_utf8 :: "string \<Rightarrow> string" where
  "coerce_utf8 [] = []"
| "coerce_utf8 (c # cs) =
     (let n = DecodeRune_size (map of_char (c # cs)) in
      if n = 0 then [CHR 0xEF, CHR 0xBF, CHR 0xBD] @ coerce_utf8 cs
      else take n (c # cs) @ coerce_utf8 (drop (n - 1) cs))"
  by pat_completeness auto
termination
  by (relation "measure length") simp_all

subsection \<open>UserGroup and UserGroupsWrapper\<close>

text \<open>
  Modelled from the spec: the declaration of \<^verbatim>\<open>UserGroup\<close> is not in user.go. The spec
  gives it a group identifier and descriptive fields, and names the wire keys \<^verbatim>\<open>id\<close>
  and \<^verbatim>\<open>name\<close>; user.go dereferences \<^verbatim>\<open>v.ID\<close> and stores a \<^verbatim>\<open>*string\<close> in it, so \<open>ID\<close>
  is a pointer. The record has the identifier and the name; keys of further
  descriptive fields are treated as unknown keys, which the decoder skips.
\<close>

record UserGroup =
  ID :: "string option"
  Name :: string

definition zero_UserGroup :: UserGroup where
  "zero_UserGroup = \<lparr>UserGroup.ID = None, UserGroup.Name = []\<rparr>"

definition UserGroup_field :: "string \<Rightarrow> json \<Rightarrow> UserGroup \<Rightarrow> error option \<Rightarrow> UserGroup decoded" where
  "UserGroup_field k j g s =
     (if names k ''id'' then
        map_decoded (\<lambda>x. g\<lparr>UserGroup.ID := x\<rparr>) (decode_string_ptr j (UserGroup.ID g) s)
      else if names k ''name'' then
        map_decoded (\<lambda>x. g\<lparr>UserGroup.Name := x\<rparr>) (decode_string j (UserGroup.Name g) s)
      else Decoded s g)"

record UserGroupsWrapper =
  UserGroups :: "UserGroup list"

text \<open>\<^verbatim>\<open>json.Unmarshal(data, &groupIds)\<close> with \<^verbatim>\<open>groupIds\<close> a nil \<^verbatim>\<open>[]*string\<close>.\<close>

definition unmarshal_string_ptrs :: "bytes \<Rightarrow> error option \<times> string option list" where
  "unmarshal_string_ptrs data = (case data of
       Malformed \<Rightarrow> (Some SyntaxError, [])
     | Encoded j \<Rightarrow> finish (decode_slice decode_string_ptr None j [] None))"

text \<open>\<^verbatim>\<open>json.Unmarshal(data, &w.UserGroups)\<close>: into the slice the wrapper holds.\<close>

definition unmarshal_UserGroups :: "bytes \<Rightarrow> UserGroup list \<Rightarrow> error option \<times> UserGroup list" where
  "unmarshal_UserGroups data gs = (case data of
       Malformed \<Rightarrow> (Some SyntaxError, gs)
     | Encoded j \<Rightarrow> finish (decode_slice (decode_struct UserGroup_field) zero_UserGroup j gs None))"

text \<open>
  \<^verbatim>\<open>UnmarshalJSON\<close>: first as an array of string IDs, each bound to a group that has
  only its ID; failing that, as groups.
\<close>

definition UnmarshalJSON :: "UserGroupsWrapper \<Rightarrow> bytes \<Rightarrow> error option \<times> UserGroupsWrapper" where
  "UnmarshalJSON w data = (case unmarshal_string_ptrs data of
       (None, groupIds) \<Rightarrow>
         (None, fold (\<lambda>v w. w\<lparr>UserGroups := UserGroups w @ [\<lparr>UserGroup.ID = v, UserGroup.Name = []\<rparr>]\<rparr>)
                  groupIds w)
     | (Some _, _) \<Rightarrow>
         (case unmarshal_UserGroups data (UserGroups w) of
            (err, gs) \<Rightarrow> (err, w\<lparr>UserGroups := gs\<rparr>)))"

text \<open>
  \<^verbatim>\<open>json.Marshal(ids)\<close> for \<^verbatim>\<open>ids\<close> of type \<^verbatim>\<open>[]*string\<close>: the nil slice is \<^verbatim>\<open>null\<close>. In
  \<^verbatim>\<open>MarshalJSON\<close> the slice starts nil and grows by \<^verbatim>\<open>append\<close> only, so it is nil exactly
  when it is empty.
\<close>

definition marshal_string_ptrs :: "string option list \<Rightarrow> bytes \<times> error option" where
  "marshal_string_ptrs ids =
     (Encoded (if ids = [] then JNull
               else JArray (map (\<lambda>p. case p of None \<Rightarrow> JNull
                                       | Some x \<Rightarrow> JString (coerce_utf8 x)) ids)),
      None)"

text \<open>The loop of \<^verbatim>\<open>MarshalJSON\<close>; \<^verbatim>\<open>*v.ID\<close> panics on a nil ID.\<close>

fun MarshalJSON_loop :: "UserGroup list \<Rightarrow> string option list \<Rightarrow> string option list outcome" where
  "MarshalJSON_loop [] ids = Returns ids"
| "MarshalJSON_loop (v # vs) ids = (case UserGroup.ID v of
       None \<Rightarrow> NilDereference
     | Some x \<Rightarrow> if x \<noteq> [] then MarshalJSON_loop vs (ids @ [UserGroup.ID v])
                else MarshalJSON_loop vs ids)"

definition MarshalJSON :: "UserGroupsWrapper \<Rightarrow> (bytes \<times> error option) outcome" where
  "MarshalJSON w = (case MarshalJSON_loop (UserGroups w) [] of
       NilDereference \<Rightarrow> NilDereference
     | Returns ids \<Rightarrow> Returns (marshal_string_ptrs ids))"

subsection \<open>NewUserRequest and User, and their wire forms\<close>

record NewUserRequest =
  EmailAddress :: string
  Permissions :: "string list"
  Groups :: UserGroupsWrapper

record User =
  ID :: "string option"
  Customer :: string
  LastSuccessfulLogin :: "64 word"
  Permissions :: "string list"
  Groups :: UserGroupsWrapper
  Credential :: string

definition zero_User :: User where
  "zero_User = \<lparr>User.ID = None, Customer = [], LastSuccessfulLogin = 0, User.Permissions = [],
     User.Groups = \<lparr>UserGroups = []\<rparr>, Credential = []\<rparr>"

definition baseUserPath :: string where
  "baseUserPath = ''/api/v2/user''"

text \<open>The decimal literal of an unsigned integer.\<close>

function FormatUint :: "nat \<Rightarrow> string" where
  "FormatUint n = (if n < 10 then [''0123456789'' ! n]
                   else FormatUint (n div 10) @ [''0123456789'' ! (n mod 10)])"
  by pat_completeness auto
termination
  by (relation "measure id") auto

text \<open>A member with the tag \<^verbatim>\<open>omitempty\<close> is left out when the field is empty.\<close>

definition omitempty :: "string \<Rightarrow> bool \<Rightarrow> json \<Rightarrow> (string \<times> json) list" where
  "omitempty key isEmpty j = (if isEmpty then [] else [(key, j)])"

text \<open>
  The member \<^verbatim>\<open>userGroups\<close>: a struct is never empty, so the member is always written,
  with what \<^verbatim>\<open>MarshalJSON\<close> returns. An error or invalid text from \<^verbatim>\<open>MarshalJSON\<close> makes
  \<^verbatim>\<open>json.Marshal\<close> fail; a panic goes through.
\<close>

definition marshal_Groups :: "UserGroupsWrapper \<Rightarrow> (error + json) outcome" where
  "marshal_Groups g = (case MarshalJSON g of
       NilDereference \<Rightarrow> NilDereference
     | Returns (data, Some err) \<Rightarrow> Returns (Inl MarshalerError)
     | Returns (Malformed, None) \<Rightarrow> Returns (Inl MarshalerError)
     | Returns (Encoded j, None) \<Rightarrow> Returns (Inr j))"

text \<open>
  \<^verbatim>\<open>json.Marshal(user)\<close>; on an error there is no text (\<open>Malformed\<close>). The text is given by
  the JSON value it denotes, so the strings are the coerced ones.
\<close>

definition marshal_User :: "User \<Rightarrow> (bytes \<times> error option) outcome" where
  "marshal_User u = (case marshal_Groups (User.Groups u) of
       NilDereference \<Rightarrow> NilDereference
     | Returns (Inl err) \<Rightarrow> Returns (Malformed, Some err)
     | Returns (Inr g) \<Rightarrow> Returns
         (Encoded (JObject
            ([(''identifier'', case User.ID u of None \<Rightarrow> JNull
                                | Some x \<Rightarrow> JString (coerce_utf8 x))]
             @ omitempty ''customer'' (Customer u = []) (JString (coerce_utf8 (Customer u)))
             @ omitempty ''lastSuccessfulLogin'' (LastSuccessfulLogin u = 0)
                 (JNumber (FormatUint (unat (LastSuccessfulLogin u))))
             @ omitempty ''groups'' (User.Permissions u = [])
                 (JArray (map (\<lambda>x. JString (coerce_utf8 x)) (User.Permissions u)))
             @ [(''userGroups'', g)]
             @ omitempty ''credential'' (Credential u = []) (JString (coerce_utf8 (Credential u))))),
          None))"

text \<open>\<^verbatim>\<open>json.Marshal(newUser)\<close>.\<close>

definition marshal_NewUserRequest :: "NewUserRequest \<Rightarrow> (bytes \<times> error option) outcome" where
  "marshal_NewUserRequest n = (case marshal_Groups (NewUserRequest.Groups n) of
       NilDereference \<Rightarrow> NilDereference
     | Returns (Inl err) \<Rightarrow> Returns (Malformed, Some err)
     | Returns (Inr g) \<Rightarrow> Returns
         (Encoded (JObject
            ([(''emailAddress'', JString (coerce_utf8 (EmailAddress n)))]
             @ omitempty ''groups'' (NewUserRequest.Permissions n = [])
                 (JArray (map (\<lambda>x. JString (coerce_utf8 x)) (NewUserRequest.Permissions n)))
             @ [(''userGroups'', g)])),
          None))"

text \<open>
  The fields of \<^verbatim>\<open>User\<close> by their tags. \<^verbatim>\<open>userGroups\<close> goes through \<^verbatim>\<open>UnmarshalJSON\<close>
  (also for null), whose error aborts the decoding.
\<close>

definition User_field :: "string \<Rightarrow> json \<Rightarrow> User \<Rightarrow> error option \<Rightarrow> User decoded" where
  "User_field k j u s =
     (if names k ''identifier'' then
        map_decoded (\<lambda>x. u\<lparr>User.ID := x\<rparr>) (decode_string_ptr j (User.ID u) s)
      else if names k ''customer'' then
        map_decoded (\<lambda>x. u\<lparr>Customer := x\<rparr>) (decode_string j (Customer u) s)
      else if names k ''lastSuccessfulLogin'' then
        map_decoded (\<lambda>x. u\<lparr>LastSuccessfulLogin := x\<rparr>) (decode_uint j (LastSuccessfulLogin u) s)
      else if names k ''groups'' then
        map_decoded (\<lambda>x. u\<lparr>User.Permissions := x\<rparr>)
          (decode_slice decode_string [] j (User.Permissions u) s)
      else if names k ''userGroups'' then
        (case UnmarshalJSON (User.Groups u) (Encoded j) of
           (None, g) \<Rightarrow> Decoded s (u\<lparr>User.Groups := g\<rparr>)
         | (Some e, g) \<Rightarrow> Aborted e (u\<lparr>User.Groups := g\<rparr>))
      else if names k ''credential'' then
        map_decoded (\<lambda>x. u\<lparr>Credential := x\<rparr>) (decode_string j (Credential u) s)
      else Decoded s u)"

text \<open>
  \<^verbatim>\<open>json.Unmarshal(body, &user)\<close> in \<^verbatim>\<open>updateUser\<close>: into the \<^verbatim>\<open>User\<close> the caller
  handed in. (For \<^verbatim>\<open>null\<close> the local pointer variable is set to nil and the caller's
  \<^verbatim>\<open>User\<close> stays as it is.)
\<close>

definition unmarshal_User :: "bytes \<Rightarrow> User \<Rightarrow> error option \<times> User" where
  "unmarshal_User body user = (case body of
       Malformed \<Rightarrow> (Some SyntaxError, user)
     | Encoded j \<Rightarrow> finish (decode_struct User_field j user None))"

text \<open>
  \<^verbatim>\<open>json.Unmarshal(resp.Response.Items, &tmpres)\<close> in \<^verbatim>\<open>Find\<close>, \<^verbatim>\<open>tmpres\<close> a nil
  \<^verbatim>\<open>[]*User\<close>: null gives a nil pointer, any other element a new \<^verbatim>\<open>User\<close>.
\<close>

definition decode_User_ptr :: "json \<Rightarrow> User option \<Rightarrow> error option \<Rightarrow> User option decoded" where
  "decode_User_ptr j old s = (case j of
       JNull \<Rightarrow> Decoded s None
     | _ \<Rightarrow> map_decoded Some
            (decode_struct User_field j (case old of None \<Rightarrow> zero_User | Some u \<Rightarrow> u) s))"

definition unmarshal_Users :: "bytes \<Rightarrow> error option \<times> User option list" where
  "unmarshal_Users data = (case data of
       Malformed \<Rightarrow> (Some SyntaxError, [])
     | Encoded j \<Rightarrow> finish (decode_slice decode_User_ptr None j [] None))"

text \<open>
  The envelope of \<^verbatim>\<open>Create\<close>, a struct with the one field \<^verbatim>\<open>Response *User\<close> (tag
  \<^verbatim>\<open>response\<close>) that starts out pointing to the caller's \<^verbatim>\<open>User\<close>. null sets the field
  to nil; a later member \<^verbatim>\<open>response\<close> is then decoded into a new \<^verbatim>\<open>User\<close>, which the
  caller never sees.
\<close>

datatype Response_ptr = Caller | Fresh User | Nil

definition response_field ::
  "string \<Rightarrow> json \<Rightarrow> User \<times> Response_ptr \<Rightarrow> error option \<Rightarrow> (User \<times> Response_ptr) decoded" where
  "response_field k j up s = (case up of (u, p) \<Rightarrow>
     (if names k ''response'' then
        (case j of
           JNull \<Rightarrow> Decoded s (u, Nil)
         | _ \<Rightarrow> (case p of
               Caller \<Rightarrow> map_decoded (\<lambda>u'. (u', Caller)) (decode_struct User_field j u s)
             | Fresh v \<Rightarrow> map_decoded (\<lambda>v'. (u, Fresh v')) (decode_struct User_field j v s)
             | Nil \<Rightarrow> map_decoded (\<lambda>v'. (u, Fresh v')) (decode_struct User_field j zero_User s)))
      else Decoded s (u, p)))"

definition unmarshal_response :: "bytes \<Rightarrow> User \<Rightarrow> error option \<times> User" where
  "unmarshal_response body user = (case body of
       Malformed \<Rightarrow> (Some SyntaxError, user)
     | Encoded j \<Rightarrow> (case finish (decode_struct response_field j (user, Caller) None) of
           (err, (u, p)) \<Rightarrow> (err, u)))"

subsection \<open>The collaborators\<close>

text \<open>
  Modelled from the spec: \<^verbatim>\<open>Search\<close>, \<^verbatim>\<open>SearchParams\<close>, \<^verbatim>\<open>SearchCondition\<close> and the
  response of \<^verbatim>\<open>Search.Execute\<close> are declared outside user.go. The spec gives the search
  a type, a filter and an offset, and its response the items (JSON), the flag
  \<^verbatim>\<open>moreItems\<close> and the next offset; the fields are named as user.go reads and writes
  them. The type of a search condition is left open (\<open>'c\<close>).
\<close>

record 'c SearchParams =
  Conditions :: "'c list"
  Offset :: int

record 'c Search =
  Type :: string
  Params :: "'c SearchParams"

record SearchResponseBody =
  Items :: bytes
  MoreItems :: bool

record SearchResponse =
  Response :: SearchResponseBody
  NextOffset :: int

text \<open>
  An \<^verbatim>\<open>io.ReadCloser\<close>, by what \<^verbatim>\<open>ioutil.ReadAll\<close> returns for it.
\<close>

record ReadCloser =
  ReadAll :: "bytes \<times> error option"

text \<open>
  The client: \<^verbatim>\<open>NewRequest(method, path, params, body)\<close> and \<^verbatim>\<open>Do(req)\<close> of the
  interface \<^verbatim>\<open>Wavefronter\<close>, and \<^verbatim>\<open>Execute\<close> of a \<^verbatim>\<open>Search\<close> that holds this client.
  \<open>'q\<close> is the type of requests, \<open>'s\<close> the state of the collaborator. A nil \<^verbatim>\<open>params\<close> or
  \<^verbatim>\<open>body\<close> is \<open>None\<close>; the map \<^verbatim>\<open>params\<close> is an association list.
\<close>

record ('c, 'q, 's) Wavefronter =
  NewRequest :: "string \<Rightarrow> string \<Rightarrow> (string \<times> string) list option \<Rightarrow> bytes option \<Rightarrow> 's
                   \<Rightarrow> (error + 'q) \<times> 's"
  Do :: "'q \<Rightarrow> 's \<Rightarrow> (error + ReadCloser) \<times> 's"
  Execute :: "'c Search \<Rightarrow> 's \<Rightarrow> (error + SearchResponse) \<times> 's"

datatype ('c, 'q) call =
    NewRequest_call string string "(string \<times> string) list option" "bytes option"
  | Do_call 'q
  | Execute_call "'c Search"
  | ReadAll_call ReadCloser
  | Close_call ReadCloser

record ('c, 'q, 's) world =
  state :: 's
  trace :: "('c, 'q) call list"

definition call_NewRequest ::
  "('c, 'q, 's) Wavefronter \<Rightarrow> string \<Rightarrow> string \<Rightarrow> (string \<times> string) list option \<Rightarrow> bytes option
    \<Rightarrow> ('c, 'q, 's) world \<Rightarrow> (error + 'q) \<times> ('c, 'q, 's) world" where
  "call_NewRequest c method path params body w =
     (case NewRequest c method path params body (state w) of
        (r, s') \<Rightarrow> (r, \<lparr>state = s', trace = trace w @ [NewRequest_call method path params body]\<rparr>))"

definition call_Do ::
  "('c, 'q, 's) Wavefronter \<Rightarrow> 'q \<Rightarrow> ('c, 'q, 's) world \<Rightarrow> (error + ReadCloser) \<times> ('c, 'q, 's) world" where
  "call_Do c req w =
     (case Do c req (state w) of
        (r, s') \<Rightarrow> (r, \<lparr>state = s', trace = trace w @ [Do_call req]\<rparr>))"

definition call_Execute ::
  "('c, 'q, 's) Wavefronter \<Rightarrow> 'c Search \<Rightarrow> ('c, 'q, 's) world
    \<Rightarrow> (error + SearchResponse) \<times> ('c, 'q, 's) world" where
  "call_Execute c search w =
     (case Execute c search (state w) of
        (r, s') \<Rightarrow> (r, \<lparr>state = s', trace = trace w @ [Execute_call search]\<rparr>))"

definition call_ReadAll ::
  "ReadCloser \<Rightarrow> ('c, 'q, 's) world \<Rightarrow> (bytes \<times> error option) \<times> ('c, 'q, 's) world" where
  "call_ReadAll resp w = (ReadAll resp, w\<lparr>trace := trace w @ [ReadAll_call resp]\<rparr>)"

definition call_Close :: "ReadCloser \<Rightarrow> ('c, 'q, 's) world \<Rightarrow> ('c, 'q, 's) world" where
  "call_Close resp w = w\<lparr>trace := trace w @ [Close_call resp]\<rparr>"

subsection \<open>The operations of Users\<close>

text \<open>
  Each operation takes the client, its arguments and the world, and returns the error
  (\<open>None\<close> is \<^verbatim>\<open>nil\<close>), the \<^verbatim>\<open>User\<close> behind the pointer as it stands on return, and the
  world. The deferred \<^verbatim>\<open>resp.Close()\<close> runs on every return after \<^verbatim>\<open>Do\<close> succeeded.
\<close>

definition updateUser ::
  "('c, 'q, 's) Wavefronter \<Rightarrow> string \<Rightarrow> string \<Rightarrow> (string \<times> string) list option \<Rightarrow> User
    \<Rightarrow> ('c, 'q, 's) world \<Rightarrow> (error option \<times> User \<times> ('c, 'q, 's) world) outcome" where
  "updateUser c method path params user w =
     (case marshal_User user of
        NilDereference \<Rightarrow> NilDereference
      | Returns (payload, Some err) \<Rightarrow> Returns (Some err, user, w)
      | Returns (payload, None) \<Rightarrow>
          (case call_NewRequest c method path params (Some payload) w of
             (Inl err, w1) \<Rightarrow> Returns (Some err, user, w1)
           | (Inr req, w1) \<Rightarrow>
               (case call_Do c req w1 of
                  (Inl err, w2) \<Rightarrow> Returns (Some err, user, w2)
                | (Inr resp, w2) \<Rightarrow>
                    (case call_ReadAll resp w2 of
                       ((body, Some err), w3) \<Rightarrow> Returns (Some err, user, call_Close resp w3)
                     | ((body, None), w3) \<Rightarrow>
                         (case unmarshal_User body user of
                            (err, user') \<Rightarrow> Returns (err, user', call_Close resp w3))))))"

definition Get ::
  "('c, 'q, 's) Wavefronter \<Rightarrow> User \<Rightarrow> ('c, 'q, 's) world
    \<Rightarrow> (error option \<times> User \<times> ('c, 'q, 's) world) outcome" where
  "Get c user w = (case User.ID user of
       None \<Rightarrow> NilDereference
     | Some i \<Rightarrow>
         if i = [] then Returns (Some (Errorf ''user ID field is not set''), user, w)
         else updateUser c ''GET'' (baseUserPath @ ''/'' @ i) None user w)"

definition Update ::
  "('c, 'q, 's) Wavefronter \<Rightarrow> User \<Rightarrow> ('c, 'q, 's) world
    \<Rightarrow> (error option \<times> User \<times> ('c, 'q, 's) world) outcome" where
  "Update c user w = (case User.ID user of
       None \<Rightarrow> NilDereference
     | Some i \<Rightarrow>
         if i = [] then Returns (Some (Errorf ''user ID field is not set''), user, w)
         else updateUser c ''PUT'' (baseUserPath @ ''/'' @ i) None user w)"

definition Delete ::
  "('c, 'q, 's) Wavefronter \<Rightarrow> User \<Rightarrow> ('c, 'q, 's) world
    \<Rightarrow> (error option \<times> User \<times> ('c, 'q, 's) world) outcome" where
  "Delete c user w = (case User.ID user of
       None \<Rightarrow> NilDereference
     | Some i \<Rightarrow>
         if i = [] then Returns (Some (Errorf ''user ID field is not set''), user, w)
         else
           (case call_NewRequest c ''DELETE'' (baseUserPath @ ''/'' @ i) None None w of
              (Inl err, w1) \<Rightarrow> Returns (Some err, user, w1)
            | (Inr req, w1) \<Rightarrow>
                (case call_Do c req w1 of
                   (Inl err, w2) \<Rightarrow> Returns (Some err, user, w2)
                 | (Inr resp, w2) \<Rightarrow>
                     Returns (None, user\<lparr>User.ID := Some []\<rparr>, call_Close resp w2))))"

text \<open>\<^verbatim>\<open>fmt.Sprintf("%t", sendEmail)\<close>.\<close>

definition Sprintf_t :: "bool \<Rightarrow> string" where
  "Sprintf_t b = (if b then ''true'' else ''false'')"

definition Create ::
  "('c, 'q, 's) Wavefronter \<Rightarrow> NewUserRequest \<Rightarrow> User \<Rightarrow> bool \<Rightarrow> ('c, 'q, 's) world
    \<Rightarrow> (error option \<times> User \<times> ('c, 'q, 's) world) outcome" where
  "Create c newUser user sendEmail w =
     (if EmailAddress newUser = [] then
        Returns (Some (Errorf ''a valid email address must be specified''), user, w)
      else
        (let params = [(''sendEmail'', Sprintf_t sendEmail)] in
         case marshal_NewUserRequest newUser of
           NilDereference \<Rightarrow> NilDereference
         | Returns (payload, Some err) \<Rightarrow> Returns (Some err, user, w)
         | Returns (payload, None) \<Rightarrow>
             (case call_NewRequest c ''POST'' baseUserPath (Some params) (Some payload) w of
                (Inl err, w1) \<Rightarrow> Returns (Some err, user, w1)
              | (Inr req, w1) \<Rightarrow>
                  (case call_Do c req w1 of
                     (Inl err, w2) \<Rightarrow> Returns (Some err, user, w2)
                   | (Inr resp, w2) \<Rightarrow>
                       (case call_ReadAll resp w2 of
                          ((body, Some err), w3) \<Rightarrow> Returns (Some err, user, call_Close resp w3)
                        | ((body, None), w3) \<Rightarrow>
                            (case unmarshal_response body user of
                               (err, user') \<Rightarrow> Returns (err, user', call_Close resp w3)))))))"

text \<open>
  The loop of \<^verbatim>\<open>Find\<close>. It runs as long as the server says there are more items, so it
  need not end: \<open>None\<close> is the run that never returns. The result is the pair Go
  returns, the users (pointers, so \<open>None\<close> is a nil entry) and the error.
\<close>

partial_function (option) Find_loop ::
  "('c, 'q, 's) Wavefronter \<Rightarrow> 'c Search \<Rightarrow> User option list \<Rightarrow> bool \<Rightarrow> ('c, 'q, 's) world
    \<Rightarrow> ((User option list \<times> error option) \<times> ('c, 'q, 's) world) option" where
  "Find_loop c search results moreItems w =
     (if moreItems = True then
        (case call_Execute c search w of
           (Inl err, w1) \<Rightarrow> Some (([], Some err), w1)
         | (Inr resp, w1) \<Rightarrow>
             (case unmarshal_Users (Items (Response resp)) of
                (Some err, tmpres) \<Rightarrow> Some (([], Some err), w1)
              | (None, tmpres) \<Rightarrow>
                  Find_loop c
                    (search\<lparr>Params := (Params search)\<lparr>Offset := NextOffset resp\<rparr>\<rparr>)
                    (results @ tmpres)
                    (MoreItems (Response resp))
                    w1))
      else Some ((results, None), w))"

definition Find ::
  "('c, 'q, 's) Wavefronter \<Rightarrow> 'c list \<Rightarrow> ('c, 'q, 's) world
    \<Rightarrow> ((User option list \<times> error option) \<times> ('c, 'q, 's) world) option" where
  "Find c filter' w =
     Find_loop c \<lparr>Type = ''user'', Params = \<lparr>Conditions = filter', Offset = 0\<rparr>\<rparr> [] True w"

subsection \<open>A scripted client\<close>

text \<open>
  A client that builds every request (the request is the method and the path), answers
  every \<^verbatim>\<open>Do\<close> with the same response, and answers the searches from a script, one entry
  per call. It instantiates the theorems below.
\<close>

definition stub ::
  "ReadCloser \<Rightarrow> (unit, string \<times> string, (error + SearchResponse) list) Wavefronter" where
  "stub resp =
     \<lparr>NewRequest = (\<lambda>method path params body s. (Inr (method, path), s)),
      Do = (\<lambda>req s. (Inr resp, s)),
      Execute = (\<lambda>search s. case s of
          [] \<Rightarrow> (Inl (TransportError ''no more pages''), [])
        | r # rs \<Rightarrow> (r, rs))\<rparr>"

definition world0 :: "(unit, string \<times> string, (error + SearchResponse) list) world" where
  "world0 = \<lparr>state = [], trace = []\<rparr>"

text \<open>
  The searches a collaborator answers. \<open>serves c search s rs s'\<close>: started in state
  \<open>s\<close> and asked \<open>search\<close>, the collaborator gives the first answer of \<open>rs\<close>; asked
  again with the offset set to the next offset of that page, it gives the second; and
  so on, ending in state \<open>s'\<close>. (After an error the search stays as it is; \<^verbatim>\<open>Find\<close>
  asks nothing after an error.)
\<close>

fun serves ::
  "('c, 'q, 's) Wavefronter \<Rightarrow> 'c Search \<Rightarrow> 's \<Rightarrow> (error + SearchResponse) list \<Rightarrow> 's \<Rightarrow> bool" where
  "serves c search s [] s' = (s' = s)"
| "serves c search s (r # rs) s' =
     (case Execute c search s of (r', s1) \<Rightarrow>
        r' = r \<and>
        serves c (case r of Inl _ \<Rightarrow> search
                  | Inr p \<Rightarrow> search\<lparr>Params := (Params search)\<lparr>Offset := NextOffset p\<rparr>\<rparr>) s1 rs s')"

definition at_offset :: "'c Search \<Rightarrow> int \<Rightarrow> 'c Search" where
  "at_offset search off = search\<lparr>Params := (Params search)\<lparr>Offset := off\<rparr>\<rparr>"

text \<open>A page of search results with one user, who has only an identifier.\<close>

definition page :: "string \<Rightarrow> bool \<Rightarrow> int \<Rightarrow> SearchResponse" where
  "page i flag next =
     \<lparr>Response = \<lparr>Items = Encoded (JArray [JObject [(''identifier'', JString i)]]), MoreItems = flag\<rparr>,
      NextOffset = next\<rparr>"

text \<open>
  What it is for an element of the wire array to carry a non-empty ID: it is a
  non-empty string, or an object that has members named \<^verbatim>\<open>id\<close>, all of them non-empty
  strings. And for a group to have one.
\<close>

definition carries_id :: "json \<Rightarrow> bool" where
  "carries_id j = (case j of
       JString x \<Rightarrow> x \<noteq> []
     | JObject kvs \<Rightarrow>
         (let ids = filter (\<lambda>kv. names (fst kv) ''id'') kvs in
          ids \<noteq> [] \<and> list_all (\<lambda>kv. case snd kv of JString x \<Rightarrow> x \<noteq> [] | _ \<Rightarrow> False) ids)
     | _ \<Rightarrow> False)"

definition has_id :: "UserGroup \<Rightarrow> bool" where
  "has_id g = (case UserGroup.ID g of None \<Rightarrow> False | Some x \<Rightarrow> x \<noteq> [])"

section \<open>Properties\<close>

subsection \<open>Auxiliary facts\<close>

lemma MarshalJSON_loop_filter:
  "\<forall>v\<in>set gs. UserGroup.ID v \<noteq> None \<Longrightarrow>
   MarshalJSON_loop gs ids =
     Returns (ids @ map Some (filter (\<lambda>x. x \<noteq> []) (map (the \<circ> UserGroup.ID) gs)))"
  by (induction gs arbitrary: ids) auto

lemma MarshalJSON_loop_panics:
  "(MarshalJSON_loop gs ids = NilDereference) = (\<exists>v\<in>set gs. UserGroup.ID v = None)"
  by (induction gs arbitrary: ids) (auto split: option.splits)

lemma at_offset_at_offset: "at_offset (at_offset search a) b = at_offset search b"
  by (simp add: at_offset_def)

lemma at_offset_self: "at_offset search (Offset (Params search)) = search"
  by (simp add: at_offset_def)

lemma Offset_at_offset: "Offset (Params (at_offset search a)) = a"
  by (simp add: at_offset_def)

lemma serves_append:
  "serves c search s (map Inr ps @ rs) s' =
   (\<exists>s1. serves c search s (map Inr ps) s1 \<and>
         serves c (at_offset search (last (Offset (Params search) # map NextOffset ps))) s1 rs s')"
proof (induction ps arbitrary: search s)
  case Nil
  show ?case by (simp add: at_offset_self)
next
  case (Cons p ps)
  show ?case
    using Cons.IH [of "at_offset search (NextOffset p)"]
    by (auto simp: at_offset_def split: prod.splits)
qed

lemma Find_loop_good_pages:
  assumes "serves c search (state w) (map Inr ps) s1"
    and "\<forall>q\<in>set ps. MoreItems (Response q) \<and> unmarshal_Users (Items (Response q)) = (None, us q)"
  shows "Find_loop c search results True w =
         Find_loop c (at_offset search (last (Offset (Params search) # map NextOffset ps)))
           (results @ concat (map us ps)) True
           \<lparr>state = s1,
            trace = trace w @ map (\<lambda>off. Execute_call (at_offset search off))
                                  (butlast (Offset (Params search) # map NextOffset ps))\<rparr>"
  using assms
proof (induction ps arbitrary: search results w)
  case Nil
  then show ?case by (cases w) (simp add: at_offset_def)
next
  case (Cons p ps)
  obtain s0 where ex: "Execute c search (state w) = (Inr p, s0)"
    and sv: "serves c (at_offset search (NextOffset p)) s0 (map Inr ps) s1"
    using Cons.prems(1) by (auto simp: at_offset_def split: prod.splits)
  have dec: "unmarshal_Users (Items (Response p)) = (None, us p)"
    using Cons.prems(2) by simp
  have more: "MoreItems (Response p)"
    using Cons.prems(2) by simp
  let ?w1 = "\<lparr>state = s0, trace = trace w @ [Execute_call search]\<rparr>"
  have step: "Find_loop c search results True w =
              Find_loop c (at_offset search (NextOffset p)) (results @ us p) True ?w1"
    by (subst Find_loop.simps) (simp add: call_Execute_def ex dec more at_offset_def)
  have ih: "Find_loop c (at_offset search (NextOffset p)) (results @ us p) True ?w1 =
         Find_loop c (at_offset (at_offset search (NextOffset p))
                        (last (Offset (Params (at_offset search (NextOffset p))) # map NextOffset ps)))
           ((results @ us p) @ concat (map us ps)) True
           \<lparr>state = s1,
            trace = trace ?w1 @ map (\<lambda>off. Execute_call (at_offset (at_offset search (NextOffset p)) off))
                                  (butlast (Offset (Params (at_offset search (NextOffset p))) # map NextOffset ps))\<rparr>"
    using Cons.IH [of "at_offset search (NextOffset p)" ?w1 "results @ us p"] sv Cons.prems(2)
    by simp
  show ?case
    unfolding step ih Offset_at_offset at_offset_at_offset
    by (simp add: at_offset_self)
qed

lemma Find_loop_last_page:
  assumes "Execute c search (state w) = (Inr p, s')"
    and "\<not> MoreItems (Response p)"
    and "unmarshal_Users (Items (Response p)) = (None, tmpres)"
  shows "Find_loop c search results True w =
         Some ((results @ tmpres, None), \<lparr>state = s', trace = trace w @ [Execute_call search]\<rparr>)"
proof -
  let ?w1 = "\<lparr>state = s', trace = trace w @ [Execute_call search]\<rparr>"
  have "Find_loop c search results True w =
        Find_loop c (search\<lparr>Params := (Params search)\<lparr>Offset := NextOffset p\<rparr>\<rparr>)
          (results @ tmpres) False ?w1"
    by (subst Find_loop.simps) (simp add: call_Execute_def assms)
  also have "\<dots> = Some ((results @ tmpres, None), ?w1)"
    by (subst Find_loop.simps) simp
  finally show ?thesis .
qed

lemma Find_loop_failing_page:
  assumes "Execute c search (state w) = (r, s')"
    and "r = Inl err \<or> (\<exists>p. r = Inr p \<and> fst (unmarshal_Users (Items (Response p))) = Some err)"
  shows "Find_loop c search results True w =
         Some (([], Some err), \<lparr>state = s', trace = trace w @ [Execute_call search]\<rparr>)"
proof (cases r)
  case (Inl e)
  with assms(2) have "r = Inl err" by auto
  then show ?thesis
    by (subst Find_loop.simps) (simp add: call_Execute_def assms(1))
next
  case (Inr p)
  with assms(2) have "fst (unmarshal_Users (Items (Response p))) = Some err" by auto
  then obtain tmpres where "unmarshal_Users (Items (Response p)) = (Some err, tmpres)"
    by (cases "unmarshal_Users (Items (Response p))") simp
  then show ?thesis
    by (subst Find_loop.simps) (simp add: call_Execute_def assms(1) Inr)
qed

lemma trace_offsets:
  "map f (butlast (a # xs)) @ [f (last (a # xs))] = map f (a # xs)"
proof -
  have "butlast (a # xs) @ [last (a # xs)] = a # xs"
    by (rule append_butlast_last_id) simp
  then have "map f (butlast (a # xs) @ [last (a # xs)]) = map f (a # xs)"
    by (simp only:)
  then show ?thesis by simp
qed

lemma decode_fields_response_filter:
  "decode_fields response_field kvs up s =
   decode_fields response_field (filter (\<lambda>kv. names (fst kv) ''response'') kvs) up s"
proof (induction kvs arbitrary: up s)
  case Nil
  show ?case by simp
next
  case (Cons kv kvs)
  obtain k j where kv: "kv = (k, j)" by (cases kv)
  obtain u p where up: "up = (u, p)" by (cases up)
  show ?case
  proof (cases "names k ''response''")
    case True
    then show ?thesis
      using Cons.IH by (simp add: kv split: decoded.splits)
  next
    case False
    then have "response_field k j up s = Decoded s up"
      by (simp add: response_field_def up)
    with False show ?thesis
      using Cons.IH by (simp add: kv)
  qed
qed

lemmas decoding_defs = unmarshal_Users_def decode_slice_def decode_User_ptr_def decode_struct_def
  User_field_def names_def upper_def decode_string_ptr_def decode_string_def map_decoded_def
  finish_def zero_User_def

lemma unmarshal_page:
  "unmarshal_Users (Items (Response (page i flag next))) = (None, [Some (zero_User\<lparr>User.ID := Some i\<rparr>)])"
  by (simp add: page_def decoding_defs)

lemma saveError_Some: "\<exists>y. saveError e s = Some y"
  by (simp add: saveError_def split: option.splits)

lemma saveError_keeps: "s \<noteq> None \<Longrightarrow> saveError e s = s"
  by (auto simp: saveError_def)

lemma UserGroup_field_id:
  "names k ''id'' \<Longrightarrow> x \<noteq> [] \<Longrightarrow>
   UserGroup_field k (JString x) g s = Decoded s (g\<lparr>UserGroup.ID := Some x\<rparr>)"
  by (simp add: UserGroup_field_def decode_string_ptr_def decode_string_def map_decoded_def)

lemma UserGroup_field_other:
  assumes "\<not> names k ''id''"
  shows "\<exists>s' g'. UserGroup_field k j g s = Decoded s' g' \<and> UserGroup.ID g' = UserGroup.ID g \<and>
           (s \<noteq> None \<longrightarrow> s' \<noteq> None)"
proof (cases "names k ''name''")
  case True
  with assms show ?thesis
    by (cases j)
       (simp_all add: UserGroup_field_def decode_string_def map_decoded_def saveError_Some)
next
  case False
  with assms show ?thesis
    by (simp add: UserGroup_field_def)
qed

lemma decode_fields_UserGroup_id:
  assumes "list_all (\<lambda>kv. case snd kv of JString x \<Rightarrow> x \<noteq> [] | _ \<Rightarrow> False)
             (filter (\<lambda>kv. names (fst kv) ''id'') kvs)"
  shows "\<exists>s' g'. decode_fields UserGroup_field kvs g s = Decoded s' g' \<and>
           (filter (\<lambda>kv. names (fst kv) ''id'') kvs = [] \<longrightarrow> UserGroup.ID g' = UserGroup.ID g) \<and>
           (filter (\<lambda>kv. names (fst kv) ''id'') kvs \<noteq> [] \<longrightarrow> has_id g') \<and>
           (s \<noteq> None \<longrightarrow> s' \<noteq> None)"
  using assms
proof (induction kvs arbitrary: g s)
  case Nil
  show ?case by simp
next
  case (Cons kv kvs)
  obtain k j where kv: "kv = (k, j)" by (cases kv)
  let ?ids = "filter (\<lambda>kv. names (fst kv) ''id'') kvs"
  show ?case
  proof (cases "names k ''id''")
    case True
    with Cons.prems obtain x where j: "j = JString x" and x: "x \<noteq> []"
      by (auto simp: kv split: json.splits)
    have rest: "list_all (\<lambda>kv. case snd kv of JString x \<Rightarrow> x \<noteq> [] | _ \<Rightarrow> False) ?ids"
      using Cons.prems True by (simp add: kv)
    from Cons.IH [OF rest, of "g\<lparr>UserGroup.ID := Some x\<rparr>" s]
    obtain s' g' where d: "decode_fields UserGroup_field kvs (g\<lparr>UserGroup.ID := Some x\<rparr>) s = Decoded s' g'"
      and i1: "?ids = [] \<longrightarrow> UserGroup.ID g' = UserGroup.ID (g\<lparr>UserGroup.ID := Some x\<rparr>)"
      and i2: "?ids \<noteq> [] \<longrightarrow> has_id g'"
      and i3: "s \<noteq> None \<longrightarrow> s' \<noteq> None"
      by blast
    from i1 i2 x have h: "has_id g'"
      by (cases "?ids = []") (simp_all add: has_id_def)
    have e: "decode_fields UserGroup_field ((k, JString x) # kvs) g s = Decoded s' g'"
      using UserGroup_field_id [OF True x, of g s] d by simp
    show ?thesis
      unfolding kv j e using h i3 True by simp
  next
    case False
    obtain s1 g1 where f: "UserGroup_field k j g s = Decoded s1 g1"
      and same: "UserGroup.ID g1 = UserGroup.ID g" and m: "s \<noteq> None \<longrightarrow> s1 \<noteq> None"
      using UserGroup_field_other [OF False] by blast
    have rest: "list_all (\<lambda>kv. case snd kv of JString x \<Rightarrow> x \<noteq> [] | _ \<Rightarrow> False) ?ids"
      using Cons.prems False by (simp add: kv)
    from Cons.IH [OF rest, of g1 s1]
    obtain s' g' where d: "decode_fields UserGroup_field kvs g1 s1 = Decoded s' g'"
      and i1: "?ids = [] \<longrightarrow> UserGroup.ID g' = UserGroup.ID g1"
      and i2: "?ids \<noteq> [] \<longrightarrow> has_id g'"
      and i3: "s1 \<noteq> None \<longrightarrow> s' \<noteq> None"
      by blast
    have e: "decode_fields UserGroup_field ((k, j) # kvs) g s = Decoded s' g'"
      using f d by simp
    show ?thesis
      unfolding kv e using i1 i2 i3 m same False by simp
  qed
qed

lemma decode_struct_UserGroup_carries:
  assumes "carries_id j"
  shows "\<exists>s' g'. decode_struct UserGroup_field j g s = Decoded s' g' \<and>
           (s \<noteq> None \<longrightarrow> s' \<noteq> None) \<and> (s' = None \<longrightarrow> has_id g')"
proof (cases j)
  case (JString x)
  then show ?thesis
    using saveError_Some [of "UnmarshalTypeError ''string''" s]
    by (auto simp: decode_struct_def kind_def)
next
  case (JObject kvs)
  with assms have ne: "filter (\<lambda>kv. names (fst kv) ''id'') kvs \<noteq> []"
    and good: "list_all (\<lambda>kv. case snd kv of JString x \<Rightarrow> x \<noteq> [] | _ \<Rightarrow> False)
             (filter (\<lambda>kv. names (fst kv) ''id'') kvs)"
    by (simp_all add: carries_id_def Let_def)
  from decode_fields_UserGroup_id [OF good, of g s]
  obtain s' g' where d: "decode_fields UserGroup_field kvs g s = Decoded s' g'"
    and h: "has_id g'" and m: "s \<noteq> None \<longrightarrow> s' \<noteq> None"
    using ne by blast
  have "decode_struct UserGroup_field j g s = Decoded s' g'"
    using d by (simp add: JObject decode_struct_def)
  then show ?thesis
    using h m by simp
qed (use assms in \<open>simp_all add: carries_id_def\<close>)

lemma decode_elems_UserGroups:
  assumes "\<forall>j\<in>set js. carries_id j"
  shows "\<exists>s' gs. decode_elems (decode_struct UserGroup_field) zero_UserGroup js [] s = Decoded s' gs \<and>
           (s \<noteq> None \<longrightarrow> s' \<noteq> None) \<and> (s' = None \<longrightarrow> (\<forall>g\<in>set gs. has_id g))"
  using assms
proof (induction js arbitrary: s)
  case Nil
  show ?case by simp
next
  case (Cons j js)
  from Cons.prems have cj: "carries_id j" and rest: "\<forall>j\<in>set js. carries_id j"
    by simp_all
  from decode_struct_UserGroup_carries [OF cj, of zero_UserGroup s]
  obtain s1 g1 where d: "decode_struct UserGroup_field j zero_UserGroup s = Decoded s1 g1"
    and m1: "s \<noteq> None \<longrightarrow> s1 \<noteq> None" and h1: "s1 = None \<longrightarrow> has_id g1"
    by blast
  from Cons.IH [OF rest, of s1]
  obtain s' gs where e: "decode_elems (decode_struct UserGroup_field) zero_UserGroup js [] s1 = Decoded s' gs"
    and m2: "s1 \<noteq> None \<longrightarrow> s' \<noteq> None" and h2: "s' = None \<longrightarrow> (\<forall>g\<in>set gs. has_id g)"
    by blast
  have f: "decode_elems (decode_struct UserGroup_field) zero_UserGroup (j # js) [] s = Decoded s' (g1 # gs)"
    using d e by (simp add: map_decoded_def)
  show ?case
    unfolding f using m1 m2 h1 h2 by auto
qed

lemma decode_string_ptr_carries:
  assumes "carries_id j"
  shows "\<exists>s' p. decode_string_ptr j None s = Decoded s' p \<and>
           (s \<noteq> None \<longrightarrow> s' \<noteq> None) \<and>
           (s' = None \<longrightarrow> (\<exists>x. j = JString x \<and> x \<noteq> [] \<and> p = Some x))"
proof (cases j)
  case (JString x)
  with assms show ?thesis
    by (simp add: carries_id_def decode_string_ptr_def decode_string_def map_decoded_def)
next
  case (JObject kvs)
  then show ?thesis
    using saveError_Some [of "UnmarshalTypeError ''object''" s]
    by (auto simp: decode_string_ptr_def decode_string_def map_decoded_def kind_def)
qed (use assms in \<open>simp_all add: carries_id_def\<close>)

lemma decode_elems_string_ptrs:
  assumes "\<forall>j\<in>set js. carries_id j"
  shows "\<exists>s' ps. decode_elems decode_string_ptr None js [] s = Decoded s' ps \<and>
           (s \<noteq> None \<longrightarrow> s' \<noteq> None) \<and>
           (s' = None \<longrightarrow> (\<forall>p\<in>set ps. \<exists>x. p = Some x \<and> x \<noteq> []))"
  using assms
proof (induction js arbitrary: s)
  case Nil
  show ?case by simp
next
  case (Cons j js)
  from Cons.prems have cj: "carries_id j" and rest: "\<forall>j\<in>set js. carries_id j"
    by simp_all
  from decode_string_ptr_carries [OF cj, of s]
  obtain s1 p1 where d: "decode_string_ptr j None s = Decoded s1 p1"
    and m1: "s \<noteq> None \<longrightarrow> s1 \<noteq> None"
    and h1: "s1 = None \<longrightarrow> (\<exists>x. p1 = Some x \<and> x \<noteq> [])"
    by blast
  from Cons.IH [OF rest, of s1]
  obtain s' ps where e: "decode_elems decode_string_ptr None js [] s1 = Decoded s' ps"
    and m2: "s1 \<noteq> None \<longrightarrow> s' \<noteq> None"
    and h2: "s' = None \<longrightarrow> (\<forall>p\<in>set ps. \<exists>x. p = Some x \<and> x \<noteq> [])"
    by blast
  have f: "decode_elems decode_string_ptr None (j # js) [] s = Decoded s' (p1 # ps)"
    using d e by (simp add: map_decoded_def)
  show ?case
    unfolding f using m1 m2 h1 h2 by auto
qed

lemma fold_append_groups:
  "UserGroups (fold (\<lambda>v w. w\<lparr>UserGroups := UserGroups w @ [\<lparr>UserGroup.ID = v, UserGroup.Name = []\<rparr>]\<rparr>) ps w)
   = UserGroups w @ map (\<lambda>v. \<lparr>UserGroup.ID = v, UserGroup.Name = []\<rparr>) ps"
  by (induction ps arbitrary: w) simp_all





lemma MarshalJSON_present:
  assumes "\<forall>v\<in>set (UserGroups w). UserGroup.ID v \<noteq> None"
  shows "MarshalJSON w =
     (let ids = filter (\<lambda>x. x \<noteq> []) (map (the \<circ> UserGroup.ID) (UserGroups w)) in
      Returns (Encoded (if ids = [] then JNull else JArray (map (\<lambda>x. JString (coerce_utf8 x)) ids)), None))"
  using assms
  by (simp add: MarshalJSON_def MarshalJSON_loop_filter marshal_string_ptrs_def Let_def comp_def)

lemma marshal_Groups_present:
  assumes "\<forall>v\<in>set (UserGroups w). UserGroup.ID v \<noteq> None"
  shows "\<exists>g. marshal_Groups w = Returns (Inr g)"
  using MarshalJSON_present [OF assms]
  by (simp add: marshal_Groups_def Let_def)


lemma marshal_NewUserRequest_present:
  assumes "\<forall>v\<in>set (UserGroups (NewUserRequest.Groups n)). UserGroup.ID v \<noteq> None"
  shows "\<exists>payload. marshal_NewUserRequest n = Returns (payload, None)"
  using marshal_Groups_present [OF assms]
  by (auto simp: marshal_NewUserRequest_def)



lemma names_identifier:
  "names k ''identifier'' \<Longrightarrow> \<not> names k ''customer'' \<and> \<not> names k ''lastSuccessfulLogin'' \<and>
     \<not> names k ''groups'' \<and> \<not> names k ''userGroups'' \<and> \<not> names k ''credential''"
  by (simp add: names_def upper_def)

























lemma Create_first_call:
  assumes "EmailAddress newUser \<noteq> []" and "marshal_NewUserRequest newUser = Returns (payload, None)"
  shows "\<exists>err user' w'. Create c newUser user sendEmail w = Returns (err, user', w') \<and>
           take 1 (drop (length (trace w)) (trace w')) =
             [NewRequest_call ''POST'' ''/api/v2/user''
                (Some [(''sendEmail'', if sendEmail then ''true'' else ''false'')]) (Some payload)]"
proof -
  let ?params = "Some [(''sendEmail'', if sendEmail then ''true'' else ''false'')]"
  obtain r1 s1 where n: "NewRequest c ''POST'' ''/api/v2/user'' ?params (Some payload) (state w) = (r1, s1)"
    by (cases "NewRequest c ''POST'' ''/api/v2/user'' ?params (Some payload) (state w)")
  note base = Create_def assms call_NewRequest_def baseUserPath_def Sprintf_t_def
  show ?thesis
  proof (cases r1)
    case (Inl e)
    then show ?thesis
      using n by (simp add: base)
  next
    case (Inr req)
    note r1 = this
    obtain r2 s2 where d: "Do c req s1 = (r2, s2)"
      by (cases "Do c req s1")
    show ?thesis
    proof (cases r2)
      case (Inl e)
      then show ?thesis
        using n r1 d by (simp add: base call_Do_def)
    next
      case (Inr resp)
      obtain body e where ra: "ReadAll resp = (body, e)"
        by (cases "ReadAll resp")
      show ?thesis
        using n r1 d Inr ra
        by (cases e) (simp_all add: base call_Do_def call_ReadAll_def call_Close_def split: prod.splits)
    qed
  qed
qed

subsection \<open>Validation\<close>

text \<open>
  C1. On a \<^verbatim>\<open>User\<close> whose identifier is the empty string, \<^verbatim>\<open>Get\<close>, \<^verbatim>\<open>Update\<close> and
  \<^verbatim>\<open>Delete\<close> return the error \<^verbatim>\<open>user ID field is not set\<close>; on a \<^verbatim>\<open>NewUserRequest\<close> whose
  email address is empty, \<^verbatim>\<open>Create\<close> returns the error \<^verbatim>\<open>a valid email address must be
  specified\<close>. In each case the world is returned as it was, so the trace has no new
  call (no request built, none executed, no search), and the \<^verbatim>\<open>User\<close> is returned as
  it was.
\<close>

theorem validation_before_any_call:
  "(User.ID user = Some [] \<longrightarrow>
      Get c user w = Returns (Some (Errorf ''user ID field is not set''), user, w) \<and>
      Update c user w = Returns (Some (Errorf ''user ID field is not set''), user, w) \<and>
      Delete c user w = Returns (Some (Errorf ''user ID field is not set''), user, w)) \<and>
   (EmailAddress newUser = [] \<longrightarrow>
      Create c newUser user sendEmail w =
        Returns (Some (Errorf ''a valid email address must be specified''), user, w))"
  by (simp add: Get_def Update_def Delete_def Create_def)

theorem validation_before_any_call_witness:
  "Get (stub \<lparr>ReadAll = (Malformed, None)\<rparr>) (zero_User\<lparr>User.ID := Some []\<rparr>) world0 =
     Returns (Some (Errorf ''user ID field is not set''), zero_User\<lparr>User.ID := Some []\<rparr>, world0) \<and>
   Update (stub \<lparr>ReadAll = (Malformed, None)\<rparr>) (zero_User\<lparr>User.ID := Some []\<rparr>) world0 =
     Returns (Some (Errorf ''user ID field is not set''), zero_User\<lparr>User.ID := Some []\<rparr>, world0) \<and>
   Delete (stub \<lparr>ReadAll = (Malformed, None)\<rparr>) (zero_User\<lparr>User.ID := Some []\<rparr>) world0 =
     Returns (Some (Errorf ''user ID field is not set''), zero_User\<lparr>User.ID := Some []\<rparr>, world0) \<and>
   Create (stub \<lparr>ReadAll = (Malformed, None)\<rparr>)
       \<lparr>EmailAddress = [], NewUserRequest.Permissions = [], NewUserRequest.Groups = \<lparr>UserGroups = []\<rparr>\<rparr>
       (zero_User\<lparr>User.ID := Some []\<rparr>) True world0 =
     Returns (Some (Errorf ''a valid email address must be specified''),
              zero_User\<lparr>User.ID := Some []\<rparr>, world0)"
  using validation_before_any_call
    [of "zero_User\<lparr>User.ID := Some []\<rparr>" "stub \<lparr>ReadAll = (Malformed, None)\<rparr>" world0
        "\<lparr>EmailAddress = [], NewUserRequest.Permissions = [], NewUserRequest.Groups = \<lparr>UserGroups = []\<rparr>\<rparr>"
        True]
  by simp

text \<open>
  C10. With a nil identifier pointer the check \<^verbatim>\<open>*user.ID == ""\<close> panics in \<^verbatim>\<open>Get\<close>,
  \<^verbatim>\<open>Update\<close> and \<^verbatim>\<open>Delete\<close>, so no validation error is returned; and \<^verbatim>\<open>MarshalJSON\<close>
  panics exactly when some group of the wrapper has a nil ID.
\<close>

theorem nil_identifier_panics:
  "(User.ID user = None \<longrightarrow>
      Get c user w = NilDereference \<and> Update c user w = NilDereference \<and>
      Delete c user w = NilDereference) \<and>
   ((MarshalJSON g = NilDereference) = (\<exists>v\<in>set (UserGroups g). UserGroup.ID v = None))"
proof -
  have "(MarshalJSON g = NilDereference) = (MarshalJSON_loop (UserGroups g) [] = NilDereference)"
    by (simp add: MarshalJSON_def split: outcome.splits)
  then have "(MarshalJSON g = NilDereference) = (\<exists>v\<in>set (UserGroups g). UserGroup.ID v = None)"
    by (simp only: MarshalJSON_loop_panics)
  then show ?thesis
    by (simp add: Get_def Update_def Delete_def)
qed

theorem nil_identifier_panics_witness:
  "Get (stub \<lparr>ReadAll = (Malformed, None)\<rparr>) zero_User world0 = NilDereference \<and>
   Update (stub \<lparr>ReadAll = (Malformed, None)\<rparr>) zero_User world0 = NilDereference \<and>
   Delete (stub \<lparr>ReadAll = (Malformed, None)\<rparr>) zero_User world0 = NilDereference \<and>
   MarshalJSON \<lparr>UserGroups = [\<lparr>UserGroup.ID = Some ''g1'', UserGroup.Name = []\<rparr>, zero_UserGroup]\<rparr>
     = NilDereference"
  using nil_identifier_panics
    [of zero_User "stub \<lparr>ReadAll = (Malformed, None)\<rparr>" world0
        "\<lparr>UserGroups = [\<lparr>UserGroup.ID = Some ''g1'', UserGroup.Name = []\<rparr>, zero_UserGroup]\<rparr>"]
  by (simp add: zero_User_def zero_UserGroup_def)

subsection \<open>The wire form of group membership\<close>

text \<open>
  C2 says that for every list of groups the encoder emits exactly the non-empty IDs.
  A group whose ID pointer is nil makes \<^verbatim>\<open>MarshalJSON\<close> panic at \<^verbatim>\<open>*v.ID\<close>, and the
  decoder of this module makes such groups: \<^verbatim>\<open>["g1",null]\<close> decodes to the group \<^verbatim>\<open>g1\<close>
  and a group with a nil ID, and encoding these two panics. And an ID that is not valid
  UTF-8 is not emitted as it is: the byte FF is emitted as U+FFFD.
\<close>

theorem MarshalJSON_nil_id_counterexample:
  "UnmarshalJSON \<lparr>UserGroups = []\<rparr> (Encoded (JArray [JString ''g1'', JNull])) =
     (None, \<lparr>UserGroups = [\<lparr>UserGroup.ID = Some ''g1'', UserGroup.Name = []\<rparr>,
                           \<lparr>UserGroup.ID = None, UserGroup.Name = []\<rparr>]\<rparr>) \<and>
   MarshalJSON \<lparr>UserGroups = [\<lparr>UserGroup.ID = Some ''g1'', UserGroup.Name = []\<rparr>,
                              \<lparr>UserGroup.ID = None, UserGroup.Name = []\<rparr>]\<rparr> = NilDereference \<and>
   MarshalJSON \<lparr>UserGroups = [\<lparr>UserGroup.ID = Some [CHR 0xFF], UserGroup.Name = []\<rparr>]\<rparr> =
     Returns (Encoded (JArray [JString [CHR 0xEF, CHR 0xBF, CHR 0xBD]]), None)"
  by (simp add: UnmarshalJSON_def unmarshal_string_ptrs_def decode_slice_def finish_def
      decode_string_ptr_def decode_string_def map_decoded_def MarshalJSON_def
      marshal_string_ptrs_def Let_def DecodeRune_size_def)

text \<open>
  C2, amended. For a wrapper whose groups all have an ID (the pointer is not nil),
  \<^verbatim>\<open>MarshalJSON\<close> returns, without error, the array of the non-empty IDs in the order of
  the groups, each as \<^verbatim>\<open>json.Marshal\<close> writes a string: bytes that are not valid UTF-8
  are replaced by U+FFFD, so when the IDs are valid UTF-8 the array holds exactly the
  IDs. Groups with an empty ID are left out. When no ID is left, in particular for an
  empty or nil list of groups, the text is \<^verbatim>\<open>null\<close>, the absent sequence.
\<close>

theorem MarshalJSON_emits_nonempty_ids:
  assumes "\<forall>v\<in>set (UserGroups w). UserGroup.ID v \<noteq> None"
  shows "MarshalJSON w =
     (let ids = filter (\<lambda>x. x \<noteq> []) (map (the \<circ> UserGroup.ID) (UserGroups w)) in
      Returns (Encoded (if ids = [] then JNull else JArray (map (\<lambda>x. JString (coerce_utf8 x)) ids)),
               None)) \<and>
    ((\<forall>v\<in>set (UserGroups w). coerce_utf8 (the (UserGroup.ID v)) = the (UserGroup.ID v)) \<longrightarrow>
     MarshalJSON w =
     (let ids = filter (\<lambda>x. x \<noteq> []) (map (the \<circ> UserGroup.ID) (UserGroups w)) in
      Returns (Encoded (if ids = [] then JNull else JArray (map JString ids)), None))) \<and>
    (UserGroups w = [] \<longrightarrow> MarshalJSON w = Returns (Encoded JNull, None))"
proof -
  let ?ids = "filter (\<lambda>x. x \<noteq> []) (map (the \<circ> UserGroup.ID) (UserGroups w))"
  have a: "MarshalJSON w =
      Returns (Encoded (if ?ids = [] then JNull else JArray (map (\<lambda>x. JString (coerce_utf8 x)) ?ids)), None)"
    using MarshalJSON_present [OF assms] by (simp add: Let_def)
  have b: "map (\<lambda>x. JString (coerce_utf8 x)) ?ids = map JString ?ids"
    if "\<forall>v\<in>set (UserGroups w). coerce_utf8 (the (UserGroup.ID v)) = the (UserGroup.ID v)"
    using that by (auto simp: comp_def)
  have c: "UserGroups w = [] \<longrightarrow> MarshalJSON w = Returns (Encoded JNull, None)"
    using a by simp
  from a b c show ?thesis
    by (simp add: Let_def)
qed

theorem MarshalJSON_emits_nonempty_ids_witness:
  "MarshalJSON \<lparr>UserGroups = [\<lparr>UserGroup.ID = Some ''a'', UserGroup.Name = ''A''\<rparr>,
                              \<lparr>UserGroup.ID = Some [], UserGroup.Name = ''B''\<rparr>,
                              \<lparr>UserGroup.ID = Some [CHR 0xC3, CHR 0x28], UserGroup.Name = ''C''\<rparr>]\<rparr> =
     Returns (Encoded (JArray [JString ''a'', JString [CHR 0xEF, CHR 0xBF, CHR 0xBD, CHR 0x28]]), None) \<and>
   MarshalJSON \<lparr>UserGroups = [\<lparr>UserGroup.ID = Some ''a'', UserGroup.Name = ''A''\<rparr>,
                              \<lparr>UserGroup.ID = Some [], UserGroup.Name = ''B''\<rparr>,
                              \<lparr>UserGroup.ID = Some ''c'', UserGroup.Name = ''C''\<rparr>]\<rparr> =
     Returns (Encoded (JArray [JString ''a'', JString ''c'']), None) \<and>
   MarshalJSON \<lparr>UserGroups = []\<rparr> = Returns (Encoded JNull, None)"
  using MarshalJSON_emits_nonempty_ids
    [of "\<lparr>UserGroups = [\<lparr>UserGroup.ID = Some ''a'', UserGroup.Name = ''A''\<rparr>,
                         \<lparr>UserGroup.ID = Some [], UserGroup.Name = ''B''\<rparr>,
                         \<lparr>UserGroup.ID = Some [CHR 0xC3, CHR 0x28], UserGroup.Name = ''C''\<rparr>]\<rparr>"]
    MarshalJSON_emits_nonempty_ids
    [of "\<lparr>UserGroups = [\<lparr>UserGroup.ID = Some ''a'', UserGroup.Name = ''A''\<rparr>,
                         \<lparr>UserGroup.ID = Some [], UserGroup.Name = ''B''\<rparr>,
                         \<lparr>UserGroup.ID = Some ''c'', UserGroup.Name = ''C''\<rparr>]\<rparr>"]
    MarshalJSON_emits_nonempty_ids [of "\<lparr>UserGroups = []\<rparr>"]
  by (simp add: Let_def DecodeRune_size_def between_def)

text \<open>
  C3. Encoding groups with the IDs \<^verbatim>\<open>g1\<close> and \<^verbatim>\<open>g2\<close> and one group with an empty ID,
  wherever it stands, gives \<^verbatim>\<open>["g1","g2"]\<close>. Decoding \<^verbatim>\<open>["g1","g2"]\<close> into an empty
  wrapper gives two groups that have only their ID. Decoding
  \<^verbatim>\<open>[{"id":"g1","name":"Eng"}]\<close> gives one group with its ID and its name.
\<close>

theorem group_membership_shapes:
  "MarshalJSON \<lparr>UserGroups = [\<lparr>UserGroup.ID = Some ''g1'', UserGroup.Name = n1\<rparr>,
                              \<lparr>UserGroup.ID = Some ''g2'', UserGroup.Name = n2\<rparr>,
                              \<lparr>UserGroup.ID = Some [], UserGroup.Name = n3\<rparr>]\<rparr> =
     Returns (Encoded (JArray [JString ''g1'', JString ''g2'']), None) \<and>
   MarshalJSON \<lparr>UserGroups = [\<lparr>UserGroup.ID = Some ''g1'', UserGroup.Name = n1\<rparr>,
                              \<lparr>UserGroup.ID = Some [], UserGroup.Name = n3\<rparr>,
                              \<lparr>UserGroup.ID = Some ''g2'', UserGroup.Name = n2\<rparr>]\<rparr> =
     Returns (Encoded (JArray [JString ''g1'', JString ''g2'']), None) \<and>
   MarshalJSON \<lparr>UserGroups = [\<lparr>UserGroup.ID = Some [], UserGroup.Name = n3\<rparr>,
                              \<lparr>UserGroup.ID = Some ''g1'', UserGroup.Name = n1\<rparr>,
                              \<lparr>UserGroup.ID = Some ''g2'', UserGroup.Name = n2\<rparr>]\<rparr> =
     Returns (Encoded (JArray [JString ''g1'', JString ''g2'']), None) \<and>
   UnmarshalJSON \<lparr>UserGroups = []\<rparr> (Encoded (JArray [JString ''g1'', JString ''g2''])) =
     (None, \<lparr>UserGroups = [\<lparr>UserGroup.ID = Some ''g1'', UserGroup.Name = []\<rparr>,
                           \<lparr>UserGroup.ID = Some ''g2'', UserGroup.Name = []\<rparr>]\<rparr>) \<and>
   UnmarshalJSON \<lparr>UserGroups = []\<rparr>
       (Encoded (JArray [JObject [(''id'', JString ''g1''), (''name'', JString ''Eng'')]])) =
     (None, \<lparr>UserGroups = [\<lparr>UserGroup.ID = Some ''g1'', UserGroup.Name = ''Eng''\<rparr>]\<rparr>)"
proof -
  note defs = UnmarshalJSON_def unmarshal_string_ptrs_def unmarshal_UserGroups_def
    decode_slice_def decode_struct_def finish_def decode_string_ptr_def decode_string_def
    map_decoded_def saveError_def kind_def UserGroup_field_def names_def upper_def
    zero_UserGroup_def MarshalJSON_def marshal_string_ptrs_def Let_def DecodeRune_size_def
  show ?thesis
    by (simp add: defs)
qed


subsection \<open>Find\<close>

text \<open>
  C5. Let the collaborator serve the pages \<open>ps @ [p]\<close>, where every page of \<open>ps\<close> says
  there are more items and \<open>p\<close> says there are none, and let the items of each page \<open>q\<close>
  decode to the users \<open>us q\<close>. Then \<^verbatim>\<open>Find\<close> returns, with no error, the users of all
  pages in order. It makes one search per page: the first with offset 0, each further
  one with the next offset of the page before it, all with the type \<^verbatim>\<open>user\<close> and the
  filter; after the page \<open>p\<close> it stops.
\<close>

theorem Find_follows_pages:
  assumes "serves c \<lparr>Type = ''user'', Params = \<lparr>Conditions = flt, Offset = 0\<rparr>\<rparr> (state w)
             (map Inr (ps @ [p])) s'"
    and "\<forall>q\<in>set ps. MoreItems (Response q)"
    and "\<not> MoreItems (Response p)"
    and "\<forall>q\<in>set (ps @ [p]). unmarshal_Users (Items (Response q)) = (None, us q)"
  shows "Find c flt w =
     Some ((concat (map us (ps @ [p])), None),
           \<lparr>state = s',
            trace = trace w @
              map (\<lambda>off. Execute_call \<lparr>Type = ''user'', Params = \<lparr>Conditions = flt, Offset = off\<rparr>\<rparr>)
                  (0 # map NextOffset ps)\<rparr>)"
proof -
  let ?search = "\<lparr>Type = ''user'', Params = \<lparr>Conditions = flt, Offset = 0\<rparr>\<rparr>"
  let ?last = "at_offset ?search (last (0 # map NextOffset ps))"
  let ?f = "\<lambda>off. Execute_call (at_offset ?search off) :: ('a, 'b) call"
  have "serves c ?search (state w) (map Inr ps @ [Inr p]) s'"
    using assms(1) by simp
  then obtain s1 where a: "serves c ?search (state w) (map Inr ps) s1"
    and b: "serves c ?last s1 [Inr p] s'"
    unfolding serves_append by auto
  from b have ex: "Execute c ?last s1 = (Inr p, s')"
    by (auto split: prod.splits)
  have good: "\<forall>q\<in>set ps. MoreItems (Response q) \<and> unmarshal_Users (Items (Response q)) = (None, us q)"
    using assms(2,4) by simp
  let ?w1 = "\<lparr>state = s1, trace = trace w @ map ?f (butlast (0 # map NextOffset ps))\<rparr>"
  have "Find c flt w = Find_loop c ?last (concat (map us ps)) True ?w1"
    using Find_loop_good_pages [OF a good, of "[]"] by (simp add: Find_def)
  also have "\<dots> = Some ((concat (map us ps) @ us p, None),
       \<lparr>state = s', trace = trace ?w1 @ [Execute_call ?last]\<rparr>)"
    using Find_loop_last_page [of c ?last ?w1 p s' "us p" "concat (map us ps)"] ex assms(3,4)
    by simp
  finally have "Find c flt w = Some ((concat (map us (ps @ [p])), None),
       \<lparr>state = s', trace = trace w @ map ?f (0 # map NextOffset ps)\<rparr>)"
    using trace_offsets [of ?f 0 "map NextOffset ps"] by simp
  then show ?thesis
    by (simp add: at_offset_def)
qed

theorem Find_follows_pages_witness:
  "Find (stub \<lparr>ReadAll = (Malformed, None)\<rparr>) []
     \<lparr>state = [Inr (page ''a'' True 10), Inr (page ''b'' True 20), Inr (page ''c'' False 30)], trace = []\<rparr> =
   Some (([Some (zero_User\<lparr>User.ID := Some ''a''\<rparr>), Some (zero_User\<lparr>User.ID := Some ''b''\<rparr>),
           Some (zero_User\<lparr>User.ID := Some ''c''\<rparr>)], None),
         \<lparr>state = [],
          trace = [Execute_call \<lparr>Type = ''user'', Params = \<lparr>Conditions = [], Offset = 0\<rparr>\<rparr>,
                   Execute_call \<lparr>Type = ''user'', Params = \<lparr>Conditions = [], Offset = 10\<rparr>\<rparr>,
                   Execute_call \<lparr>Type = ''user'', Params = \<lparr>Conditions = [], Offset = 20\<rparr>\<rparr>]\<rparr>)"
  using Find_follows_pages [of "stub \<lparr>ReadAll = (Malformed, None)\<rparr>" "[]"
      "\<lparr>state = [Inr (page ''a'' True 10), Inr (page ''b'' True 20), Inr (page ''c'' False 30)], trace = []\<rparr>"
      "[page ''a'' True 10, page ''b'' True 20]" "page ''c'' False 30" "[]"
      "\<lambda>q. snd (unmarshal_Users (Items (Response q)))"]
  by (simp add: stub_def unmarshal_page) (simp add: page_def)


text \<open>
  C6. Let the collaborator serve the pages \<open>ps\<close>, all decoding and all saying there are
  more items, and then fail: the next search returns the error \<open>err\<close>, or it returns a
  page whose items do not decode, with error \<open>err\<close>. Then \<^verbatim>\<open>Find\<close> returns \<open>err\<close> and no
  users at all, whatever the pages before held.
\<close>

theorem Find_failure_returns_nothing:
  assumes "serves c \<lparr>Type = ''user'', Params = \<lparr>Conditions = flt, Offset = 0\<rparr>\<rparr> (state w)
             (map Inr ps @ [r]) s'"
    and "\<forall>q\<in>set ps. MoreItems (Response q) \<and> unmarshal_Users (Items (Response q)) = (None, us q)"
    and "r = Inl err \<or> (\<exists>p. r = Inr p \<and> fst (unmarshal_Users (Items (Response p))) = Some err)"
  shows "Find c flt w =
     Some (([], Some err),
           \<lparr>state = s',
            trace = trace w @
              map (\<lambda>off. Execute_call \<lparr>Type = ''user'', Params = \<lparr>Conditions = flt, Offset = off\<rparr>\<rparr>)
                  (0 # map NextOffset ps)\<rparr>)"
proof -
  let ?search = "\<lparr>Type = ''user'', Params = \<lparr>Conditions = flt, Offset = 0\<rparr>\<rparr>"
  let ?last = "at_offset ?search (last (0 # map NextOffset ps))"
  let ?f = "\<lambda>off. Execute_call (at_offset ?search off) :: ('a, 'b) call"
  obtain s1 where a: "serves c ?search (state w) (map Inr ps) s1"
    and b: "serves c ?last s1 [r] s'"
    using assms(1) unfolding serves_append by auto
  from b have ex: "Execute c ?last s1 = (r, s')"
    by (auto split: prod.splits)
  let ?w1 = "\<lparr>state = s1, trace = trace w @ map ?f (butlast (0 # map NextOffset ps))\<rparr>"
  have "Find c flt w = Find_loop c ?last (concat (map us ps)) True ?w1"
    using Find_loop_good_pages [OF a assms(2), of "[]"] by (simp add: Find_def)
  also have "\<dots> = Some (([], Some err), \<lparr>state = s', trace = trace ?w1 @ [Execute_call ?last]\<rparr>)"
    using Find_loop_failing_page [of c ?last ?w1 r s' err "concat (map us ps)"] ex assms(3)
    by simp
  finally have "Find c flt w = Some (([], Some err),
       \<lparr>state = s', trace = trace w @ map ?f (0 # map NextOffset ps)\<rparr>)"
    using trace_offsets [of ?f 0 "map NextOffset ps"] by simp
  then show ?thesis
    by (simp add: at_offset_def)
qed


theorem Find_failure_returns_nothing_witness:
  "Find (stub \<lparr>ReadAll = (Malformed, None)\<rparr>) []
     \<lparr>state = [Inr (page ''a'' True 10), Inl (TransportError ''timeout''), Inr (page ''c'' False 30)], trace = []\<rparr> =
   Some (([], Some (TransportError ''timeout'')),
         \<lparr>state = [Inr (page ''c'' False 30)],
          trace = [Execute_call \<lparr>Type = ''user'', Params = \<lparr>Conditions = [], Offset = 0\<rparr>\<rparr>,
                   Execute_call \<lparr>Type = ''user'', Params = \<lparr>Conditions = [], Offset = 10\<rparr>\<rparr>]\<rparr>) \<and>
   Find (stub \<lparr>ReadAll = (Malformed, None)\<rparr>) []
     \<lparr>state = [Inr (page ''a'' True 10),
               Inr \<lparr>Response = \<lparr>Items = Malformed, MoreItems = True\<rparr>, NextOffset = 20\<rparr>], trace = []\<rparr> =
   Some (([], Some SyntaxError),
         \<lparr>state = [],
          trace = [Execute_call \<lparr>Type = ''user'', Params = \<lparr>Conditions = [], Offset = 0\<rparr>\<rparr>,
                   Execute_call \<lparr>Type = ''user'', Params = \<lparr>Conditions = [], Offset = 10\<rparr>\<rparr>]\<rparr>)"
  using
    Find_failure_returns_nothing [of "stub \<lparr>ReadAll = (Malformed, None)\<rparr>" "[]"
      "\<lparr>state = [Inr (page ''a'' True 10), Inl (TransportError ''timeout''), Inr (page ''c'' False 30)], trace = []\<rparr>"
      "[page ''a'' True 10]" "Inl (TransportError ''timeout'')" "[Inr (page ''c'' False 30)]"
      "\<lambda>q. snd (unmarshal_Users (Items (Response q)))" "TransportError ''timeout''"]
    Find_failure_returns_nothing [of "stub \<lparr>ReadAll = (Malformed, None)\<rparr>" "[]"
      "\<lparr>state = [Inr (page ''a'' True 10),
               Inr \<lparr>Response = \<lparr>Items = Malformed, MoreItems = True\<rparr>, NextOffset = 20\<rparr>], trace = []\<rparr>"
      "[page ''a'' True 10]" "Inr \<lparr>Response = \<lparr>Items = Malformed, MoreItems = True\<rparr>, NextOffset = 20\<rparr>" "[]"
      "\<lambda>q. snd (unmarshal_Users (Items (Response q)))" "SyntaxError"]
  by (simp add: stub_def unmarshal_page) (simp add: page_def unmarshal_Users_def)

subsection \<open>Create and Delete\<close>

text \<open>
  C7 says that for every request with a non-empty email address \<^verbatim>\<open>Create\<close> issues a
  \<^verbatim>\<open>POST\<close>. \<^verbatim>\<open>Create\<close> marshals the request first, and a group of the request whose ID
  pointer is nil makes \<^verbatim>\<open>MarshalJSON\<close> panic: no request is built.
\<close>

theorem Create_nil_id_counterexample:
  "Create (stub \<lparr>ReadAll = (Malformed, None)\<rparr>)
     \<lparr>EmailAddress = ''a@b.c'', NewUserRequest.Permissions = [],
      NewUserRequest.Groups = \<lparr>UserGroups = [\<lparr>UserGroup.ID = None, UserGroup.Name = ''Eng''\<rparr>]\<rparr>\<rparr>
     zero_User True world0 = NilDereference"
  by (simp add: Create_def marshal_NewUserRequest_def marshal_Groups_def MarshalJSON_def)

text \<open>
  C7, amended. For a request with a non-empty email address whose groups all have an ID
  (the pointer is not nil), the request marshals, and whatever the collaborator answers
  \<^verbatim>\<open>Create\<close> returns and its first call is \<^verbatim>\<open>NewRequest\<close> for a \<^verbatim>\<open>POST\<close> to \<^verbatim>\<open>/api/v2/user\<close>
  with the marshalled request as body and the one parameter \<^verbatim>\<open>sendEmail\<close>, which is
  \<^verbatim>\<open>true\<close> or \<^verbatim>\<open>false\<close> as the flag is. When the request is built and executed and the body
  is read, the result is that of decoding the body as the envelope into the caller's
  \<^verbatim>\<open>User\<close>. That decoding looks at the members named \<^verbatim>\<open>response\<close> only; for an envelope
  with the one member \<^verbatim>\<open>response\<close>, an object, it is the decoding of that object into the
  \<^verbatim>\<open>User\<close>; and an identifier and a customer at the top level are ignored where the
  member \<^verbatim>\<open>response\<close> has its own, which are the ones the \<^verbatim>\<open>User\<close> gets.
\<close>

theorem Create_posts_and_reads_envelope:
  assumes "EmailAddress newUser \<noteq> []"
    and "\<forall>v\<in>set (UserGroups (NewUserRequest.Groups newUser)). UserGroup.ID v \<noteq> None"
  shows
   "(\<exists>payload. marshal_NewUserRequest newUser = Returns (payload, None) \<and>
      (\<exists>err user' w'. Create c newUser user sendEmail w = Returns (err, user', w') \<and>
         take 1 (drop (length (trace w)) (trace w')) =
           [NewRequest_call ''POST'' ''/api/v2/user''
              (Some [(''sendEmail'', if sendEmail then ''true'' else ''false'')]) (Some payload)]) \<and>
      (NewRequest c ''POST'' ''/api/v2/user''
           (Some [(''sendEmail'', if sendEmail then ''true'' else ''false'')]) (Some payload) (state w)
         = (Inr req, s1) \<and>
       Do c req s1 = (Inr resp, s2) \<and> ReadAll resp = (body, None) \<longrightarrow>
         Create c newUser user sendEmail w =
           Returns (fst (unmarshal_response body user), snd (unmarshal_response body user),
             \<lparr>state = s2,
              trace = trace w @
                [NewRequest_call ''POST'' ''/api/v2/user''
                   (Some [(''sendEmail'', if sendEmail then ''true'' else ''false'')]) (Some payload),
                 Do_call req, ReadAll_call resp, Close_call resp]\<rparr>))) \<and>
    unmarshal_response (Encoded (JObject kvs)) user =
      unmarshal_response (Encoded (JObject (filter (\<lambda>kv. names (fst kv) ''response'') kvs))) user \<and>
    unmarshal_response (Encoded (JObject [(''response'', JObject fs)])) user =
      unmarshal_User (Encoded (JObject fs)) user \<and>
    unmarshal_response
        (Encoded (JObject [(''identifier'', JString x), (''customer'', JString y),
                           (''response'', JObject [(''identifier'', JString x'), (''customer'', JString y')])]))
        user =
      (None, user\<lparr>User.ID := Some x', Customer := y'\<rparr>)"
proof -
  let ?params = "Some [(''sendEmail'', if sendEmail then ''true'' else ''false'')]"
  obtain payload where m: "marshal_NewUserRequest newUser = Returns (payload, None)"
    using marshal_NewUserRequest_present [OF assms(2)] by blast
  have a: "\<exists>err user' w'. Create c newUser user sendEmail w = Returns (err, user', w') \<and>
         take 1 (drop (length (trace w)) (trace w')) =
           [NewRequest_call ''POST'' ''/api/v2/user'' ?params (Some payload)]"
    by (rule Create_first_call [OF assms(1) m])
  have b: "NewRequest c ''POST'' ''/api/v2/user'' ?params (Some payload) (state w) = (Inr req, s1) \<and>
       Do c req s1 = (Inr resp, s2) \<and> ReadAll resp = (body, None) \<longrightarrow>
         Create c newUser user sendEmail w =
           Returns (fst (unmarshal_response body user), snd (unmarshal_response body user),
             \<lparr>state = s2,
              trace = trace w @
                [NewRequest_call ''POST'' ''/api/v2/user'' ?params (Some payload),
                 Do_call req, ReadAll_call resp, Close_call resp]\<rparr>)"
    using assms(1) m
    by (simp add: Create_def call_NewRequest_def call_Do_def call_Close_def call_ReadAll_def
        baseUserPath_def Sprintf_t_def split: prod.splits)
  have c: "unmarshal_response (Encoded (JObject kvs)) user =
      unmarshal_response (Encoded (JObject (filter (\<lambda>kv. names (fst kv) ''response'') kvs))) user"
    using decode_fields_response_filter [of kvs "(user, Caller)" None]
    by (simp add: unmarshal_response_def decode_struct_def)
  have d: "unmarshal_response (Encoded (JObject [(''response'', JObject fs)])) user =
      unmarshal_User (Encoded (JObject fs)) user"
    by (simp add: unmarshal_response_def unmarshal_User_def decode_struct_def response_field_def
        names_def finish_def map_decoded_def split: decoded.splits)
  have e: "unmarshal_response
        (Encoded (JObject [(''identifier'', JString x), (''customer'', JString y),
                           (''response'', JObject [(''identifier'', JString x'), (''customer'', JString y')])]))
        user =
      (None, user\<lparr>User.ID := Some x', Customer := y'\<rparr>)"
    by (simp add: unmarshal_response_def decode_struct_def response_field_def User_field_def
        names_def upper_def decode_string_ptr_def decode_string_def map_decoded_def finish_def)
  from m a b have "\<exists>payload. marshal_NewUserRequest newUser = Returns (payload, None) \<and>
      (\<exists>err user' w'. Create c newUser user sendEmail w = Returns (err, user', w') \<and>
         take 1 (drop (length (trace w)) (trace w')) =
           [NewRequest_call ''POST'' ''/api/v2/user'' ?params (Some payload)]) \<and>
      (NewRequest c ''POST'' ''/api/v2/user'' ?params (Some payload) (state w) = (Inr req, s1) \<and>
       Do c req s1 = (Inr resp, s2) \<and> ReadAll resp = (body, None) \<longrightarrow>
         Create c newUser user sendEmail w =
           Returns (fst (unmarshal_response body user), snd (unmarshal_response body user),
             \<lparr>state = s2,
              trace = trace w @
                [NewRequest_call ''POST'' ''/api/v2/user'' ?params (Some payload),
                 Do_call req, ReadAll_call resp, Close_call resp]\<rparr>))"
    by blast
  with c d e show ?thesis
    by blast
qed

theorem Create_posts_and_reads_envelope_witness:
  "Create
     (stub \<lparr>ReadAll = (Encoded (JObject
        [(''identifier'', JString ''top''),
         (''response'', JObject [(''identifier'', JString ''a@b.c''), (''customer'', JString ''acme'')])]),
        None)\<rparr>)
     \<lparr>EmailAddress = ''a@b.c'', NewUserRequest.Permissions = [],
      NewUserRequest.Groups = \<lparr>UserGroups = [\<lparr>UserGroup.ID = Some ''g1'', UserGroup.Name = []\<rparr>]\<rparr>\<rparr>
     zero_User True world0 =
   Returns (None, zero_User\<lparr>User.ID := Some ''a@b.c'', Customer := ''acme''\<rparr>,
     \<lparr>state = [],
      trace = [NewRequest_call ''POST'' ''/api/v2/user'' (Some [(''sendEmail'', ''true'')])
                 (Some (Encoded (JObject [(''emailAddress'', JString ''a@b.c''),
                                          (''userGroups'', JArray [JString ''g1''])]))),
               Do_call (''POST'', ''/api/v2/user''),
               ReadAll_call \<lparr>ReadAll = (Encoded (JObject
                  [(''identifier'', JString ''top''),
                   (''response'', JObject [(''identifier'', JString ''a@b.c''), (''customer'', JString ''acme'')])]),
                  None)\<rparr>,
               Close_call \<lparr>ReadAll = (Encoded (JObject
                  [(''identifier'', JString ''top''),
                   (''response'', JObject [(''identifier'', JString ''a@b.c''), (''customer'', JString ''acme'')])]),
                  None)\<rparr>]\<rparr>)"
  using Create_posts_and_reads_envelope
    [where newUser = "\<lparr>EmailAddress = ''a@b.c'', NewUserRequest.Permissions = [],
          NewUserRequest.Groups = \<lparr>UserGroups = [\<lparr>UserGroup.ID = Some ''g1'', UserGroup.Name = []\<rparr>]\<rparr>\<rparr>"
       and c = "stub \<lparr>ReadAll = (Encoded (JObject
          [(''identifier'', JString ''top''),
           (''response'', JObject [(''identifier'', JString ''a@b.c''), (''customer'', JString ''acme'')])]),
          None)\<rparr>"
       and sendEmail = True and w = world0 and req = "(''POST'', ''/api/v2/user'')" and ?s1.0 = "[]"
       and resp = "\<lparr>ReadAll = (Encoded (JObject
          [(''identifier'', JString ''top''),
           (''response'', JObject [(''identifier'', JString ''a@b.c''), (''customer'', JString ''acme'')])]),
          None)\<rparr>"
       and ?s2.0 = "[]"
       and body = "Encoded (JObject
          [(''identifier'', JString ''top''),
           (''response'', JObject [(''identifier'', JString ''a@b.c''), (''customer'', JString ''acme'')])])"
       and user = zero_User and kvs = "[]" and fs = "[]"]
  by (simp add: stub_def world0_def marshal_NewUserRequest_def marshal_Groups_def MarshalJSON_def
      marshal_string_ptrs_def omitempty_def unmarshal_response_def response_field_def
      decode_struct_def User_field_def names_def upper_def decode_string_ptr_def decode_string_def
      map_decoded_def finish_def zero_User_def Let_def DecodeRune_size_def)

text \<open>
  C8. For a \<^verbatim>\<open>User\<close> with a non-empty identifier, when the \<^verbatim>\<open>DELETE\<close> request for
  \<^verbatim>\<open>/api/v2/user/<id>\<close> is built and executed, \<^verbatim>\<open>Delete\<close> returns no error and the \<^verbatim>\<open>User\<close>
  with the identifier set to the empty string and every other field as it was. The
  response is closed and never read: the trace has no \<^verbatim>\<open>ReadAll\<close>, and the result is the
  same for every response.
\<close>

theorem Delete_clears_identifier:
  assumes "User.ID user = Some i" and "i \<noteq> []"
    and "NewRequest c ''DELETE'' (''/api/v2/user/'' @ i) None None (state w) = (Inr req, s1)"
    and "Do c req s1 = (Inr resp, s2)"
  shows "Delete c user w =
     Returns (None, user\<lparr>User.ID := Some []\<rparr>,
              \<lparr>state = s2,
               trace = trace w @ [NewRequest_call ''DELETE'' (''/api/v2/user/'' @ i) None None,
                                  Do_call req, Close_call resp]\<rparr>)"
  using assms
  by (simp add: Delete_def call_NewRequest_def call_Do_def call_Close_def baseUserPath_def)


theorem Delete_clears_identifier_witness:
  "Delete (stub \<lparr>ReadAll = (Malformed, None)\<rparr>)
     (zero_User\<lparr>User.ID := Some ''a'', Customer := ''acme''\<rparr>) world0 =
   Returns (None, zero_User\<lparr>User.ID := Some [], Customer := ''acme''\<rparr>,
     \<lparr>state = [],
      trace = [NewRequest_call ''DELETE'' ''/api/v2/user/a'' None None,
               Do_call (''DELETE'', ''/api/v2/user/a''),
               Close_call \<lparr>ReadAll = (Malformed, None)\<rparr>]\<rparr>)"
  using Delete_clears_identifier
    [of "zero_User\<lparr>User.ID := Some ''a'', Customer := ''acme''\<rparr>" "''a''"
        "stub \<lparr>ReadAll = (Malformed, None)\<rparr>" world0 "(''DELETE'', ''/api/v2/user/a'')" "[]"
        "\<lparr>ReadAll = (Malformed, None)\<rparr>" "[]"]
  by (simp add: stub_def world0_def zero_User_def)


subsection \<open>What the decoder does not check\<close>

text \<open>
  C4 says that every group of an accepted wire value has a non-empty ID. The decoder
  checks no ID: the array \<^verbatim>\<open>[""]\<close> is accepted as a list of IDs and gives a group whose
  ID is the empty string, and \<^verbatim>\<open>[{"name":"Eng"}]\<close> is accepted as a list of groups and
  gives a group with no ID.
\<close>

theorem UnmarshalJSON_empty_id_counterexample:
  "UnmarshalJSON \<lparr>UserGroups = []\<rparr> (Encoded (JArray [JString []])) =
     (None, \<lparr>UserGroups = [\<lparr>UserGroup.ID = Some [], UserGroup.Name = []\<rparr>]\<rparr>) \<and>
   UnmarshalJSON \<lparr>UserGroups = []\<rparr> (Encoded (JArray [JObject [(''name'', JString ''Eng'')]])) =
     (None, \<lparr>UserGroups = [\<lparr>UserGroup.ID = None, UserGroup.Name = ''Eng''\<rparr>]\<rparr>)"
  by (simp add: UnmarshalJSON_def unmarshal_string_ptrs_def unmarshal_UserGroups_def
      decode_slice_def decode_struct_def finish_def decode_string_ptr_def decode_string_def
      map_decoded_def saveError_def kind_def UserGroup_field_def names_def upper_def
      zero_UserGroup_def)

text \<open>
  C4, amended. When a wire array is accepted by the decoder (decoding into an empty
  wrapper) and every element of it carries a non-empty ID, every group of the result
  has a non-empty ID.
\<close>

theorem UnmarshalJSON_keeps_wire_ids:
  assumes "UnmarshalJSON \<lparr>UserGroups = []\<rparr> (Encoded (JArray js)) = (None, w)"
    and "\<forall>j\<in>set js. carries_id j"
  shows "\<forall>g\<in>set (UserGroups w). \<exists>x. UserGroup.ID g = Some x \<and> x \<noteq> []"
proof -
  from decode_elems_string_ptrs [OF assms(2), of None]
  obtain s1 ps where a: "decode_elems decode_string_ptr None js [] None = Decoded s1 ps"
    and a': "s1 = None \<longrightarrow> (\<forall>p\<in>set ps. \<exists>x. p = Some x \<and> x \<noteq> [])"
    by blast
  from decode_elems_UserGroups [OF assms(2), of None]
  obtain s2 gs where b: "decode_elems (decode_struct UserGroup_field) zero_UserGroup js [] None = Decoded s2 gs"
    and b': "s2 = None \<longrightarrow> (\<forall>g\<in>set gs. has_id g)"
    by blast
  have "\<forall>g\<in>set (UserGroups w). has_id g"
  proof (cases s1)
    case None
    then have "unmarshal_string_ptrs (Encoded (JArray js)) = (None, ps)"
      by (simp add: unmarshal_string_ptrs_def decode_slice_def a finish_def)
    with assms(1) have "UserGroups w = map (\<lambda>v. \<lparr>UserGroup.ID = v, UserGroup.Name = []\<rparr>) ps"
      using fold_append_groups [of ps "\<lparr>UserGroups = []\<rparr>"]
      by (auto simp: UnmarshalJSON_def)
    with a' None show ?thesis
      by (auto simp: has_id_def)
  next
    case (Some e)
    then have "unmarshal_string_ptrs (Encoded (JArray js)) = (Some e, ps)"
      by (simp add: unmarshal_string_ptrs_def decode_slice_def a finish_def)
    with assms(1) have "s2 = None" and "UserGroups w = gs"
      by (auto simp: UnmarshalJSON_def unmarshal_UserGroups_def decode_slice_def b finish_def)
    with b' show ?thesis by simp
  qed
  then show ?thesis
    by (auto simp: has_id_def split: option.splits)
qed

theorem UnmarshalJSON_keeps_wire_ids_witness:
  "list_all (\<lambda>g. UserGroup.ID g \<noteq> None \<and> UserGroup.ID g \<noteq> Some [])
     (UserGroups (snd (UnmarshalJSON \<lparr>UserGroups = []\<rparr>
        (Encoded (JArray [JString ''g1'', JString ''g2'']))))) \<and>
   list_all (\<lambda>g. UserGroup.ID g \<noteq> None \<and> UserGroup.ID g \<noteq> Some [])
     (UserGroups (snd (UnmarshalJSON \<lparr>UserGroups = []\<rparr>
        (Encoded (JArray [JObject [(''id'', JString ''g1''), (''name'', JString ''Eng'')]])))))"
proof -
  note defs = UnmarshalJSON_def unmarshal_string_ptrs_def unmarshal_UserGroups_def
    decode_slice_def decode_struct_def finish_def decode_string_ptr_def decode_string_def
    map_decoded_def saveError_def kind_def UserGroup_field_def names_def upper_def
    zero_UserGroup_def
  let ?w1 = "\<lparr>UserGroups = [\<lparr>UserGroup.ID = Some ''g1'', UserGroup.Name = []\<rparr>,
                            \<lparr>UserGroup.ID = Some ''g2'', UserGroup.Name = []\<rparr>]\<rparr>"
  let ?w2 = "\<lparr>UserGroups = [\<lparr>UserGroup.ID = Some ''g1'', UserGroup.Name = ''Eng''\<rparr>]\<rparr>"
  have a1: "UnmarshalJSON \<lparr>UserGroups = []\<rparr> (Encoded (JArray [JString ''g1'', JString ''g2''])) =
      (None, ?w1)"
    by (simp add: defs)
  have c1: "\<forall>j\<in>set [JString ''g1'', JString ''g2'']. carries_id j"
    by (simp add: carries_id_def)
  have a2: "UnmarshalJSON \<lparr>UserGroups = []\<rparr>
        (Encoded (JArray [JObject [(''id'', JString ''g1''), (''name'', JString ''Eng'')]])) = (None, ?w2)"
    by (simp add: defs)
  have c2: "\<forall>j\<in>set [JObject [(''id'', JString ''g1''), (''name'', JString ''Eng'')]]. carries_id j"
    by (simp add: carries_id_def names_def upper_def)
  from UnmarshalJSON_keeps_wire_ids [OF a1 c1] UnmarshalJSON_keeps_wire_ids [OF a2 c2]
  show ?thesis
    unfolding a1 a2 by (simp add: list_all_iff)
qed

subsection \<open>Get\<close>




end
